theory Spec2Isabelle
  imports Main "HOL-Library.Multiset"
begin

section \<open>Errors and the external interfaces used by src/compose/docker.go\<close>

text \<open>
  A Go \<open>error\<close> value is modelled by its message: \<open>NewError s\<close> is the error whose
  \<open>Error()\<close> method returns \<open>s\<close>. \<open>fmt.Errorf\<close> builds the message by concatenation.
  A nil error is \<open>None\<close>.
\<close>

datatype error = NewError string

fun Error :: "error \<Rightarrow> string" where
  "Error (NewError s) = s"

text \<open>
  The package \<open>imagename\<close> (github.com/grammarly/rocker/src/rocker/imagename) is imported
  by docker.go and is not part of the file. Its image names are an arbitrary type \<open>'i\<close>,
  its versions an arbitrary type \<open>'v\<close>, and every function, method and struct field of it
  that docker.go uses is a field of the record below, taken as a parameter by each
  function of the model. \<open>Tag\<close> and \<open>Registry\<close> are the struct fields \<open>image.Tag\<close> and
  \<open>image.Registry\<close>; \<open>All'\<close> is the method \<open>All\<close>; \<open>String\<close> is what \<open>%s\<close> prints.
\<close>

record ('i, 'v) imagename =
  New :: "string \<Rightarrow> string \<Rightarrow> 'i"
  NewFromString :: "string \<Rightarrow> 'i"
  String :: "'i \<Rightarrow> string"
  Tag :: "'i \<Rightarrow> string"
  Registry :: "'i \<Rightarrow> string"
  GetTag :: "'i \<Rightarrow> string"
  NameWithRegistry :: "'i \<Rightarrow> string"
  HasVersionRange :: "'i \<Rightarrow> bool"
  All' :: "'i \<Rightarrow> bool"
  HasVersion :: "'i \<Rightarrow> bool"
  TagAsVersion :: "'i \<Rightarrow> 'v"
  Less :: "'v \<Rightarrow> 'v \<Rightarrow> bool"
  Contains :: "'i \<Rightarrow> 'i \<Rightarrow> bool"

text \<open>
  Modelled from the spec: the constant \<open>imagename.Latest\<close> is declared in the imported
  package; the spec calls it the literal "latest" marker.
\<close>

definition Latest :: string where
  "Latest = ''latest''"

definition emptyImageName :: string where
  "emptyImageName = ''gliderlabs/alpine:3.2''"

text \<open>
  The structs of go-dockerclient that docker.go fills in or reads, with the fields it
  touches. \<open>PullImageOptions.OutputStream\<close> is the write end of the pipe and is not a
  value; \<open>HostConfig\<close> is always passed empty.
\<close>

record APIImages =
  RepoTags :: "string list"

record AuthConfiguration =
  Username :: string
  Password :: string
  Email :: string
  ServerAddress :: string

record PullImageOptions =
  pull_Repository :: string
  pull_Registry :: string
  pull_Tag :: string
  pull_RawJSONStream :: bool

record CreateContainerOptions =
  create_Image :: string
  create_Cmd :: "string list"

record RemoveContainerOptions =
  remove_ID :: string
  remove_Force :: bool
  remove_RemoveVolumes :: bool

record Container =
  ID :: string
  Gateway :: string

text \<open>
  The methods of \<open>*docker.Client\<close> that docker.go calls. Each takes its arguments to
  what the daemon answers: \<open>Inl\<close> or \<open>Some\<close> is a non-nil error. Within one run of
  \<open>PullDockerImage\<close> or \<open>GetBridgeIp\<close> no method is called twice with the same arguments.
\<close>

record client =
  InspectImage :: "string \<Rightarrow> error option"
  ListImages :: "error + APIImages list"
  PullImage :: "PullImageOptions \<Rightarrow> AuthConfiguration \<Rightarrow> error option"
  CreateContainer :: "CreateContainerOptions \<Rightarrow> error + Container"
  StartContainer :: "string \<Rightarrow> error option"
  InspectContainer :: "string \<Rightarrow> error + Container"
  RemoveContainer :: "RemoveContainerOptions \<Rightarrow> error option"

text \<open>
  The two other services docker.go calls: \<open>imagename.NewDockerHub().List(image)\<close>, which
  returns a list and an error, and \<open>jsonmessage.DisplayJSONMessagesStream\<close>, which reads
  what the pull of the given options writes into the pipe.
\<close>

record 'i services =
  HubList :: "'i \<Rightarrow> 'i list \<times> error option"
  DisplayJSONMessagesStream :: "PullImageOptions \<Rightarrow> error option"

text \<open>
  Every call of an external service is recorded, in program order, so that a statement
  can say which services a run consulted.
\<close>

datatype 'i call =
    CallInspectImage string
  | CallListImages
  | CallHubList 'i
  | CallPullImage PullImageOptions AuthConfiguration
  | CallDisplayJSONMessagesStream
  | CallCreateContainer CreateContainerOptions
  | CallStartContainer string
  | CallInspectContainer string
  | CallRemoveContainer RemoveContainerOptions

section \<open>findMostRecentTag (docker.go, lines 221-252)\<close>

text \<open>
  The loop over \<open>list\<close>, with the named result \<open>img\<close> as an accumulator (\<open>None\<close> is
  nil). \<open>continue\<close> is the recursive call on the rest, \<open>return\<close> at "latest" ends the
  loop with the candidate. The parameter \<open>image\<close> of the source is written \<open>image'\<close>
  throughout (\<open>image\<close> is a constant of HOL), and \<open>client\<close> is written \<open>cl\<close>.
\<close>

fun findMostRecentTag_loop ::
  "('i, 'v) imagename \<Rightarrow> 'i \<Rightarrow> 'i option \<Rightarrow> 'i list \<Rightarrow> 'i option" where
  "findMostRecentTag_loop ops image' img [] = img"
| "findMostRecentTag_loop ops image' img (candidate # list) =
     (if \<not> Contains ops image' candidate then findMostRecentTag_loop ops image' img list
      else if GetTag ops candidate = Latest then Some candidate
      else (case img of
              None \<Rightarrow> findMostRecentTag_loop ops image' (Some candidate) list
            | Some cur \<Rightarrow>
                if \<not> HasVersion ops candidate then findMostRecentTag_loop ops image' img list
                else if HasVersion ops cur \<and> HasVersion ops candidate
                        \<and> Less ops (TagAsVersion ops cur) (TagAsVersion ops candidate)
                     then findMostRecentTag_loop ops image' (Some candidate) list
                     else findMostRecentTag_loop ops image' img list))"

definition findMostRecentTag :: "('i, 'v) imagename \<Rightarrow> 'i \<Rightarrow> 'i list \<Rightarrow> 'i option" where
  "findMostRecentTag ops image' list = findMostRecentTag_loop ops image' None list"

section \<open>listImagesInRegistry and listImagesInDocker (lines 192-218)\<close>

text \<open>
  Both return the Go pair \<open>(list, err)\<close> as it is, since \<open>PullDockerImage\<close> reads
  \<open>len(list)\<close> before it looks at \<open>err\<close>; the second component is the calls made.
\<close>

definition listImagesInRegistry ::
  "'i services \<Rightarrow> 'i \<Rightarrow> ('i list \<times> error option) \<times> 'i call list" where
  "listImagesInRegistry hub image' = (HubList hub image', [CallHubList image'])"

text \<open>
  The inner loop over \<open>img.RepoTags\<close>: the first tag that \<open>image\<close> contains is appended
  and \<open>break\<close> leaves the loop.
\<close>

fun listImagesInDocker_tags ::
  "('i, 'v) imagename \<Rightarrow> 'i \<Rightarrow> 'i list \<Rightarrow> string list \<Rightarrow> 'i list" where
  "listImagesInDocker_tags ops image' list [] = list"
| "listImagesInDocker_tags ops image' list (tag # tags) =
     (let candidate = NewFromString ops tag in
      if Contains ops image' candidate then list @ [candidate]
      else listImagesInDocker_tags ops image' list tags)"

text \<open>The outer loop over \<open>all\<close>.\<close>

fun listImagesInDocker_images ::
  "('i, 'v) imagename \<Rightarrow> 'i \<Rightarrow> 'i list \<Rightarrow> APIImages list \<Rightarrow> 'i list" where
  "listImagesInDocker_images ops image' list [] = list"
| "listImagesInDocker_images ops image' list (img # all) =
     listImagesInDocker_images ops image'
       (listImagesInDocker_tags ops image' list (RepoTags img)) all"

definition listImagesInDocker ::
  "('i, 'v) imagename \<Rightarrow> client \<Rightarrow> 'i \<Rightarrow> ('i list \<times> error option) \<times> 'i call list" where
  "listImagesInDocker ops cl image' =
     (case ListImages cl of
        Inl err \<Rightarrow>
          (([], Some (NewError (''Failed to list all images, error: '' @ Error err))),
           [CallListImages])
      | Inr all \<Rightarrow>
          ((listImagesInDocker_images ops image' [] all, None), [CallListImages]))"

section \<open>PullDockerImage (lines 133-190)\<close>

text \<open>
  Lines 136-152: the tag to pull. The result is \<open>Inl err\<close> for the \<open>return nil, err\<close> of
  line 146 and \<open>Inr tag\<close> for the value of \<open>tag\<close> at line 154.
\<close>

definition PullDockerImage_tag ::
  "('i, 'v) imagename \<Rightarrow> client \<Rightarrow> 'i services \<Rightarrow> 'i \<Rightarrow> bool
     \<Rightarrow> (error + string) \<times> 'i call list" where
  "PullDockerImage_tag ops cl hub image' force =
     (let tag = Tag ops image' in
      if HasVersionRange ops image' \<or> All' ops image' then
        (let ((list, err), calls) = listImagesInDocker ops cl image';
             ((list, err), calls) =
               (if length list = 0 \<or> force
                then (let (r, calls') = listImagesInRegistry hub image' in (r, calls @ calls'))
                else ((list, err), calls))
         in case err of
              Some e \<Rightarrow> (Inl e, calls)
            | None \<Rightarrow>
                (case findMostRecentTag ops image' list of
                   Some recent \<Rightarrow> (Inr (Tag ops recent), calls)
                 | None \<Rightarrow> (Inr tag, calls)))
      else (Inr tag, []))"

text \<open>
  Lines 154-189: the pull of \<open>tag\<close>. The goroutine calls \<open>PullImage\<close> and sends its error
  to \<open>errch\<close>; the caller drains the pipe through \<open>DisplayJSONMessagesStream\<close>, whose
  error is returned first, and then reads \<open>errch\<close>.
\<close>

definition PullDockerImage_pull ::
  "('i, 'v) imagename \<Rightarrow> client \<Rightarrow> 'i services \<Rightarrow> 'i \<Rightarrow> AuthConfiguration \<Rightarrow> string
     \<Rightarrow> (error + 'i) \<times> 'i call list" where
  "PullDockerImage_pull ops cl hub image' auth tag =
     (let pullOpts = \<lparr>pull_Repository = NameWithRegistry ops image',
                      pull_Registry = Registry ops image',
                      pull_Tag = tag,
                      pull_RawJSONStream = True\<rparr>;
          errch = PullImage cl pullOpts auth;
          calls = [CallPullImage pullOpts auth, CallDisplayJSONMessagesStream]
      in case DisplayJSONMessagesStream hub pullOpts of
           Some err \<Rightarrow>
             (Inl (NewError (''Failed to process json stream for image: '' @ String ops image'
                              @ '', error: '' @ Error err)), calls)
         | None \<Rightarrow>
             (case errch of
                Some err \<Rightarrow>
                  (Inl (NewError (''Failed to pull image '' @ String ops image'
                                   @ '', error: '' @ Error err)), calls)
              | None \<Rightarrow> (Inr (New ops (NameWithRegistry ops image') tag), calls)))"

definition PullDockerImage ::
  "('i, 'v) imagename \<Rightarrow> client \<Rightarrow> 'i services \<Rightarrow> 'i \<Rightarrow> AuthConfiguration \<Rightarrow> bool
     \<Rightarrow> (error + 'i) \<times> 'i call list" where
  "PullDockerImage ops cl hub image' auth force =
     (case PullDockerImage_tag ops cl hub image' force of
        (Inl err, calls) \<Rightarrow> (Inl err, calls)
      | (Inr tag, calls) \<Rightarrow>
          (let (r, calls') = PullDockerImage_pull ops cl hub image' auth tag
           in (r, calls @ calls')))"

section \<open>GetBridgeIp (lines 84-127)\<close>

text \<open>
  What a run of \<open>GetBridgeIp\<close> gives: the Go pair \<open>(ip, err)\<close>, both of which are
  set when the removal fails after a successful inspection, and the calls made.
\<close>

type_synonym 'i bridge_run = "(string \<times> error option) \<times> 'i call list"

text \<open>
  The deferred function of lines 106-115. It runs after the \<open>return\<close> has set the named
  results \<open>(ip, err)\<close>, and may replace \<open>err\<close>.
\<close>

definition GetBridgeIp_deferred ::
  "client \<Rightarrow> Container \<Rightarrow> string \<times> error option \<Rightarrow> 'i bridge_run" where
  "GetBridgeIp_deferred cl container ret =
     (let removeOpts = \<lparr>remove_ID = ID container, remove_Force = True,
                        remove_RemoveVolumes = True\<rparr>;
          (ip, err) = ret
      in (case RemoveContainer cl removeOpts of
            Some err2 \<Rightarrow> if err = None then (ip, Some err2) else (ip, err)
          | None \<Rightarrow> (ip, err),
          [CallRemoveContainer removeOpts]))"

text \<open>Lines 117-126: the body between the \<open>defer\<close> and the end, up to its \<open>return\<close>.\<close>

definition GetBridgeIp_probe ::
  "client \<Rightarrow> Container \<Rightarrow> 'i bridge_run" where
  "GetBridgeIp_probe cl container =
     (case StartContainer cl (ID container) of
        Some err \<Rightarrow>
          (([], Some (NewError (''Failed to start dummy network container ''
                     @ take 12 (ID container) @ '', error: '' @ Error err))),
           [CallStartContainer (ID container)])
      | None \<Rightarrow>
          (case InspectContainer cl (ID container) of
             Inl err \<Rightarrow>
               (([], Some (NewError (''Failed to inspect dummy network container ''
                          @ take 12 (ID container) @ '', error: '' @ Error err))),
                [CallStartContainer (ID container), CallInspectContainer (ID container)])
           | Inr inspect \<Rightarrow>
               ((Gateway inspect, None),
                [CallStartContainer (ID container), CallInspectContainer (ID container)])))"

text \<open>Lines 96-126: from \<open>CreateContainer\<close> on.\<close>

definition GetBridgeIp_container ::
  "client \<Rightarrow> 'i bridge_run" where
  "GetBridgeIp_container cl =
     (let createOpts = \<lparr>create_Image = emptyImageName,
                        create_Cmd = [''/bin/sh'', ''-c'', ''while true; do sleep 1; done'']\<rparr>
      in case CreateContainer cl createOpts of
           Inl err \<Rightarrow>
             (([], Some (NewError (''Failed to create dummy network container, error: ''
                        @ Error err))),
              [CallCreateContainer createOpts])
         | Inr container \<Rightarrow>
             (let (ret, calls) = GetBridgeIp_probe cl container;
                  (ret', calls') = GetBridgeIp_deferred cl container ret
              in (ret', CallCreateContainer createOpts # calls @ calls')))"

definition GetBridgeIp ::
  "('i, 'v) imagename \<Rightarrow> client \<Rightarrow> 'i services \<Rightarrow> 'i bridge_run" where
  "GetBridgeIp ops cl hub =
     (case InspectImage cl emptyImageName of
        Some err \<Rightarrow>
          if Error err = ''no such image'' then
            (case PullDockerImage ops cl hub (NewFromString ops emptyImageName)
                    \<lparr>Username = [], Password = [], Email = [], ServerAddress = []\<rparr> False of
               (Inl err', calls) \<Rightarrow>
                 (([], Some err'), CallInspectImage emptyImageName # calls)
             | (Inr _, calls) \<Rightarrow>
                 (let (ret, calls') = GetBridgeIp_container cl
                  in (ret, CallInspectImage emptyImageName # calls @ calls')))
          else
            (([], Some (NewError (''Failed to inspect image '' @ emptyImageName
                       @ '', error: '' @ Error err))),
             [CallInspectImage emptyImageName])
      | None \<Rightarrow>
          (let (ret, calls) = GetBridgeIp_container cl
           in (ret, CallInspectImage emptyImageName # calls)))"

section \<open>A sample implementation of the external interfaces\<close>

text \<open>
  Modelled from the spec: the package \<open>imagename\<close> is not in src/. The sample below follows
  the spec's data model (an image reference is a repository, an optional registry and a
  tag; \<open>Contains\<close> holds for the same repository and registry when the tag matches
  exactly, or the version falls within the range, or the reference is the wildcard;
  \<open>HasVersion\<close> holds when the tag parses as a semantic version) and, for ranges, the
  comment in \<open>findMostRecentTag\<close>: "~1.2.3 contains 1.2.5, but it's not true for 1.3.0".
  Versions are \<open>MAJOR.MINOR.PATCH\<close>, compared lexicographically; \<open>None\<close> is the nil
  version of a tag that does not parse. The sample is the concrete input on which the
  theorems below are exercised; no theorem about docker.go depends on it.
\<close>

record SampleImage =
  sample_Registry :: string
  sample_Name :: string
  sample_Tag :: string

definition sample_digit :: "char \<Rightarrow> nat option" where
  "sample_digit c = map_of (zip ''0123456789'' [0..<10]) c"

fun sample_number_acc :: "nat \<Rightarrow> string \<Rightarrow> nat option" where
  "sample_number_acc n [] = Some n"
| "sample_number_acc n (c # cs) =
     (case sample_digit c of
        None \<Rightarrow> None
      | Some d \<Rightarrow> sample_number_acc (10 * n + d) cs)"

definition sample_number :: "string \<Rightarrow> nat option" where
  "sample_number s = (if s = [] then None else sample_number_acc 0 s)"

fun sample_split :: "char \<Rightarrow> string \<Rightarrow> string list" where
  "sample_split sep [] = [[]]"
| "sample_split sep (c # cs) =
     (if c = sep then [] # sample_split sep cs
      else (case sample_split sep cs of
              [] \<Rightarrow> [[c]]
            | w # ws \<Rightarrow> (c # w) # ws))"

definition sample_version :: "string \<Rightarrow> (nat \<times> nat \<times> nat) option" where
  "sample_version s =
     (case map sample_number (sample_split CHR ''.'' s) of
        [Some a, Some b, Some c] \<Rightarrow> Some (a, b, c)
      | _ \<Rightarrow> None)"

fun sample_Less :: "(nat \<times> nat \<times> nat) option \<Rightarrow> (nat \<times> nat \<times> nat) option \<Rightarrow> bool" where
  "sample_Less (Some (a, b, c)) (Some (a', b', c')) =
     (a < a' \<or> (a = a' \<and> (b < b' \<or> (b = b' \<and> c < c'))))"
| "sample_Less _ _ = False"

definition sample_range :: "string \<Rightarrow> (nat \<times> nat \<times> nat) option" where
  "sample_range t =
     (case t of
        [] \<Rightarrow> None
      | c # rest \<Rightarrow> if c = CHR ''~'' then sample_version rest else None)"

definition sample_All :: "SampleImage \<Rightarrow> bool" where
  "sample_All a = (sample_Tag a = ''*'')"

definition sample_Contains :: "SampleImage \<Rightarrow> SampleImage \<Rightarrow> bool" where
  "sample_Contains a b =
     (sample_Name a = sample_Name b \<and> sample_Registry a = sample_Registry b \<and>
      (sample_All a \<or>
       (case sample_range (sample_Tag a) of
          Some (x, y, z) \<Rightarrow>
            (case sample_version (sample_Tag b) of
               Some (x', y', z') \<Rightarrow> x' = x \<and> y' = y \<and> z \<le> z'
             | None \<Rightarrow> False)
        | None \<Rightarrow> sample_Tag a = sample_Tag b)))"

definition sample_New :: "string \<Rightarrow> string \<Rightarrow> SampleImage" where
  "sample_New name t =
     (let host = takeWhile (\<lambda>c. c \<noteq> CHR ''/'') name in
      if host \<noteq> name \<and> CHR ''.'' \<in> set host
      then \<lparr>sample_Registry = host, sample_Name = drop (length host + 1) name, sample_Tag = t\<rparr>
      else \<lparr>sample_Registry = [], sample_Name = name, sample_Tag = t\<rparr>)"

definition sample_NewFromString :: "string \<Rightarrow> SampleImage" where
  "sample_NewFromString s =
     (let t = rev (takeWhile (\<lambda>c. c \<noteq> CHR '':'') (rev s)) in
      if length t < length s \<and> CHR ''/'' \<notin> set t
      then sample_New (take (length s - length t - 1) s) t
      else sample_New s [])"

definition sample_NameWithRegistry :: "SampleImage \<Rightarrow> string" where
  "sample_NameWithRegistry a =
     (if sample_Registry a = [] then sample_Name a
      else sample_Registry a @ ''/'' @ sample_Name a)"

definition sample_String :: "SampleImage \<Rightarrow> string" where
  "sample_String a =
     (if sample_Tag a = [] then sample_NameWithRegistry a
      else sample_NameWithRegistry a @ '':'' @ sample_Tag a)"

definition sample_imagename :: "(SampleImage, (nat \<times> nat \<times> nat) option) imagename" where
  "sample_imagename =
     \<lparr>New = sample_New,
      NewFromString = sample_NewFromString,
      String = sample_String,
      Tag = sample_Tag,
      Registry = sample_Registry,
      GetTag = sample_Tag,
      NameWithRegistry = sample_NameWithRegistry,
      HasVersionRange = (\<lambda>a. sample_range (sample_Tag a) \<noteq> None),
      All' = sample_All,
      HasVersion = (\<lambda>a. sample_version (sample_Tag a) \<noteq> None),
      TagAsVersion = (\<lambda>a. sample_version (sample_Tag a)),
      Less = sample_Less,
      Contains = sample_Contains\<rparr>"

text \<open>
  A daemon with three local images, on which every call succeeds, and a registry that
  lists three tags of \<open>repo\<close>.
\<close>

definition sample_client :: client where
  "sample_client =
     \<lparr>InspectImage = (\<lambda>name. None),
      ListImages = Inr [\<lparr>RepoTags = [''other:3.0.0'', ''repo:1.2.3'', ''repo:1.2.4'']\<rparr>,
                        \<lparr>RepoTags = []\<rparr>,
                        \<lparr>RepoTags = [''repo:1.2.9'', ''repo:1.3.0'']\<rparr>],
      PullImage = (\<lambda>opts auth. None),
      CreateContainer = (\<lambda>opts. Inr \<lparr>ID = ''0123456789abcdef'', Gateway = []\<rparr>),
      StartContainer = (\<lambda>id. None),
      InspectContainer = (\<lambda>id. Inr \<lparr>ID = id, Gateway = ''172.17.42.1''\<rparr>),
      RemoveContainer = (\<lambda>opts. None)\<rparr>"

definition sample_services :: "SampleImage services" where
  "sample_services =
     \<lparr>HubList = (\<lambda>a. ([sample_New (sample_NameWithRegistry a) ''1.2.5'',
                         sample_New (sample_NameWithRegistry a) ''1.3.0'',
                         sample_New (sample_NameWithRegistry a) ''1.2.7''], None)),
      DisplayJSONMessagesStream = (\<lambda>opts. None)\<rparr>"

definition sample_auth :: AuthConfiguration where
  "sample_auth = \<lparr>Username = [], Password = [], Email = [], ServerAddress = []\<rparr>"

text \<open>
  A second value of the parameter record, equal to the first sample but for \<open>GetTag\<close>,
  which reads a reference without a tag as "latest" (the tag such a reference stands
  for). With it two candidates can both be tagged "latest" by \<open>GetTag\<close> while their
  \<open>Tag\<close> fields differ.
\<close>

definition sample_GetTag_default :: "SampleImage \<Rightarrow> string" where
  "sample_GetTag_default a = (if sample_Tag a = [] then Latest else sample_Tag a)"

definition sample_imagename_default :: "(SampleImage, (nat \<times> nat \<times> nat) option) imagename" where
  "sample_imagename_default = sample_imagename\<lparr>GetTag := sample_GetTag_default\<rparr>"

section \<open>Properties of findMostRecentTag\<close>

subsection \<open>The loop\<close>

text \<open>
  When some candidate is contained and tagged "latest", the loop returns the first such
  candidate, whatever \<open>img\<close> holds at that point.
\<close>

lemma loop_latest:
  "\<exists>c\<in>set list. Contains ops image' c \<and> GetTag ops c = Latest \<Longrightarrow>
   findMostRecentTag_loop ops image' img list
     = List.find (\<lambda>c. Contains ops image' c \<and> GetTag ops c = Latest) list"
proof (induction list arbitrary: img)
  case Nil
  then show ?case by simp
next
  case (Cons candidate list)
  show ?case
  proof (cases "Contains ops image' candidate \<and> GetTag ops candidate = Latest")
    case True
    then show ?thesis by simp
  next
    case False
    with Cons.prems have ex: "\<exists>c\<in>set list. Contains ops image' c \<and> GetTag ops c = Latest"
      by auto
    from False Cons.IH [OF ex] show ?thesis
      by (auto split: option.splits)
  qed
qed

text \<open>Candidates that \<open>image\<close> does not contain leave \<open>img\<close> as it is.\<close>

lemma loop_none_contained:
  "\<forall>c\<in>set list. \<not> Contains ops image' c \<Longrightarrow> findMostRecentTag_loop ops image' img list = img"
  by (induction list arbitrary: img) auto

text \<open>
  From \<open>img = nil\<close> the loop adopts the first contained candidate and goes on behind it.
\<close>

lemma loop_first:
  "List.find (Contains ops image') list = Some b \<Longrightarrow> GetTag ops b \<noteq> Latest \<Longrightarrow>
   \<exists>pre rest. list = pre @ b # rest \<and> (\<forall>c\<in>set pre. \<not> Contains ops image' c) \<and> Contains ops image' b \<and>
     findMostRecentTag_loop ops image' None list = findMostRecentTag_loop ops image' (Some b) rest"
proof (induction list)
  case Nil
  then show ?case by simp
next
  case (Cons c list)
  show ?case
  proof (cases "Contains ops image' c")
    case True
    with Cons.prems have "c = b" by simp
    with True Cons.prems(2) have
      "c # list = [] @ b # list \<and> (\<forall>c\<in>set []. \<not> Contains ops image' c) \<and> Contains ops image' b \<and>
       findMostRecentTag_loop ops image' None (c # list) = findMostRecentTag_loop ops image' (Some b) list"
      by simp
    then show ?thesis by blast
  next
    case False
    with Cons.prems have "List.find (Contains ops image') list = Some b" by simp
    from Cons.IH [OF this Cons.prems(2)] obtain pre rest where
      h: "list = pre @ b # rest" "\<forall>c\<in>set pre. \<not> Contains ops image' c" "Contains ops image' b"
         "findMostRecentTag_loop ops image' None list = findMostRecentTag_loop ops image' (Some b) rest"
      by blast
    with False have
      "c # list = (c # pre) @ b # rest \<and> (\<forall>c\<in>set (c # pre). \<not> Contains ops image' c) \<and> Contains ops image' b \<and>
       findMostRecentTag_loop ops image' None (c # list) = findMostRecentTag_loop ops image' (Some b) rest"
      by simp
    then show ?thesis by blast
  qed
qed

text \<open>
  Once \<open>img\<close> has a version, the loop is a running maximum: the result has a version, it
  is \<open>img\<close> or a later contained candidate above it, and no contained candidate with a
  version is above the result. \<open>Less\<close> needs to be irreflexive and transitive on the
  versions of images that have one.
\<close>

lemma loop_maximal:
  assumes irrefl: "\<forall>a. HasVersion ops a \<longrightarrow> \<not> Less ops (TagAsVersion ops a) (TagAsVersion ops a)"
      and trans: "\<forall>a b c. HasVersion ops a \<and> HasVersion ops b \<and> HasVersion ops c
          \<and> Less ops (TagAsVersion ops a) (TagAsVersion ops b)
          \<and> Less ops (TagAsVersion ops b) (TagAsVersion ops c)
        \<longrightarrow> Less ops (TagAsVersion ops a) (TagAsVersion ops c)"
  shows "HasVersion ops b \<Longrightarrow> \<forall>c\<in>set list. Contains ops image' c \<longrightarrow> GetTag ops c \<noteq> Latest \<Longrightarrow>
    \<exists>r. findMostRecentTag_loop ops image' (Some b) list = Some r \<and> HasVersion ops r \<and>
      (r = b \<or> (r \<in> set list \<and> Contains ops image' r \<and> Less ops (TagAsVersion ops b) (TagAsVersion ops r))) \<and>
      (\<forall>c\<in>set list. Contains ops image' c \<and> HasVersion ops c
          \<longrightarrow> \<not> Less ops (TagAsVersion ops r) (TagAsVersion ops c))"
proof (induction list arbitrary: b)
  case Nil
  then show ?case by simp
next
  case (Cons c list)
  from Cons.prems(2) have nl: "\<forall>c\<in>set list. Contains ops image' c \<longrightarrow> GetTag ops c \<noteq> Latest"
    by simp
  show ?case
  proof (cases "Contains ops image' c \<and> HasVersion ops c")
    case False
    from Cons.IH [OF Cons.prems(1) nl] False Cons.prems(2) show ?thesis
      by auto
  next
    case True
    show ?thesis
    proof (cases "Less ops (TagAsVersion ops b) (TagAsVersion ops c)")
      case less: True
      from True have vc: "HasVersion ops c" by simp
      from Cons.IH [OF vc nl] obtain r where
        r: "findMostRecentTag_loop ops image' (Some c) list = Some r" "HasVersion ops r"
           "r = c \<or> (r \<in> set list \<and> Contains ops image' r \<and> Less ops (TagAsVersion ops c) (TagAsVersion ops r))"
           "\<forall>c\<in>set list. Contains ops image' c \<and> HasVersion ops c
              \<longrightarrow> \<not> Less ops (TagAsVersion ops r) (TagAsVersion ops c)"
        by blast
      have 1: "findMostRecentTag_loop ops image' (Some b) (c # list) = Some r"
        using True less Cons.prems r(1) by simp
      have step: "Less ops (TagAsVersion ops b) (TagAsVersion ops r)"
        if "Less ops (TagAsVersion ops c) (TagAsVersion ops r)"
        using that trans Cons.prems(1) vc r(2) less by blast
      have 2: "r \<in> set (c # list) \<and> Contains ops image' r \<and> Less ops (TagAsVersion ops b) (TagAsVersion ops r)"
        using r(3) True less step by auto
      have asym: "\<not> Less ops (TagAsVersion ops r) (TagAsVersion ops c)"
        if "Less ops (TagAsVersion ops c) (TagAsVersion ops r)"
        using that trans irrefl vc r(2) by blast
      have 3: "\<not> Less ops (TagAsVersion ops r) (TagAsVersion ops c)"
        using r(3) vc irrefl asym by auto
      from 1 2 3 r(2) r(4) show ?thesis by simp
    next
      case nless: False
      from Cons.IH [OF Cons.prems(1) nl] obtain r where
        r: "findMostRecentTag_loop ops image' (Some b) list = Some r" "HasVersion ops r"
           "r = b \<or> (r \<in> set list \<and> Contains ops image' r \<and> Less ops (TagAsVersion ops b) (TagAsVersion ops r))"
           "\<forall>c\<in>set list. Contains ops image' c \<and> HasVersion ops c
              \<longrightarrow> \<not> Less ops (TagAsVersion ops r) (TagAsVersion ops c)"
        by blast
      have 1: "findMostRecentTag_loop ops image' (Some b) (c # list) = Some r"
        using True nless Cons.prems r(1) by simp
      have step: "\<not> Less ops (TagAsVersion ops r) (TagAsVersion ops c)"
        if "Less ops (TagAsVersion ops b) (TagAsVersion ops r)"
        using that trans nless True Cons.prems(1) r(2) by blast
      have 3: "\<not> Less ops (TagAsVersion ops r) (TagAsVersion ops c)"
        using r(3) nless step by auto
      from 1 3 r(2) r(3) r(4) show ?thesis by auto
    qed
  qed
qed

text \<open>
  When \<open>Less\<close> is also negatively transitive (so that "neither is less" is an equivalence,
  as for an order that comes from a comparison function), every contained candidate with a
  version that the loop saw before the one it returns is strictly below it.
\<close>

lemma loop_earliest:
  assumes trans: "\<forall>a b c. HasVersion ops a \<and> HasVersion ops b \<and> HasVersion ops c
          \<and> Less ops (TagAsVersion ops a) (TagAsVersion ops b)
          \<and> Less ops (TagAsVersion ops b) (TagAsVersion ops c)
        \<longrightarrow> Less ops (TagAsVersion ops a) (TagAsVersion ops c)"
      and negtrans: "\<forall>a b c. HasVersion ops a \<and> HasVersion ops b \<and> HasVersion ops c
          \<and> Less ops (TagAsVersion ops a) (TagAsVersion ops c)
        \<longrightarrow> Less ops (TagAsVersion ops a) (TagAsVersion ops b)
            \<or> Less ops (TagAsVersion ops b) (TagAsVersion ops c)"
  shows "HasVersion ops b \<Longrightarrow> \<forall>c\<in>set list. Contains ops image' c \<longrightarrow> GetTag ops c \<noteq> Latest \<Longrightarrow>
    \<exists>r. findMostRecentTag_loop ops image' (Some b) list = Some r \<and> HasVersion ops r \<and>
      ((r = b \<and> (\<forall>c\<in>set list. Contains ops image' c \<and> HasVersion ops c
                   \<longrightarrow> \<not> Less ops (TagAsVersion ops b) (TagAsVersion ops c))) \<or>
       (\<exists>pre post. list = pre @ r # post \<and> Contains ops image' r \<and>
          Less ops (TagAsVersion ops b) (TagAsVersion ops r) \<and>
          (\<forall>c\<in>set pre. Contains ops image' c \<and> HasVersion ops c
             \<longrightarrow> Less ops (TagAsVersion ops c) (TagAsVersion ops r)) \<and>
          (\<forall>c\<in>set post. Contains ops image' c \<and> HasVersion ops c
             \<longrightarrow> \<not> Less ops (TagAsVersion ops r) (TagAsVersion ops c))))"
proof (induction list arbitrary: b)
  case Nil
  then show ?case by simp
next
  case (Cons c list)
  from Cons.prems(2) have nl: "\<forall>c\<in>set list. Contains ops image' c \<longrightarrow> GetTag ops c \<noteq> Latest"
    by simp
  let ?v = "TagAsVersion ops"
  let ?in = "\<lambda>c. Contains ops image' c \<and> HasVersion ops c"
  show ?case
  proof (cases "?in c")
    case False
    from Cons.IH [OF Cons.prems(1) nl] obtain r where
      r: "findMostRecentTag_loop ops image' (Some b) list = Some r" "HasVersion ops r" and
      alt: "(r = b \<and> (\<forall>c\<in>set list. ?in c \<longrightarrow> \<not> Less ops (?v b) (?v c))) \<or>
         (\<exists>pre post. list = pre @ r # post \<and> Contains ops image' r \<and> Less ops (?v b) (?v r) \<and>
            (\<forall>c\<in>set pre. ?in c \<longrightarrow> Less ops (?v c) (?v r)) \<and>
            (\<forall>c\<in>set post. ?in c \<longrightarrow> \<not> Less ops (?v r) (?v c)))"
      by blast
    have 1: "findMostRecentTag_loop ops image' (Some b) (c # list) = Some r"
      using False Cons.prems(2) r(1) by auto
    from alt show ?thesis
    proof
      assume "r = b \<and> (\<forall>c\<in>set list. ?in c \<longrightarrow> \<not> Less ops (?v b) (?v c))"
      with False 1 r(2) show ?thesis by auto
    next
      assume "\<exists>pre post. list = pre @ r # post \<and> Contains ops image' r \<and> Less ops (?v b) (?v r) \<and>
            (\<forall>c\<in>set pre. ?in c \<longrightarrow> Less ops (?v c) (?v r)) \<and>
            (\<forall>c\<in>set post. ?in c \<longrightarrow> \<not> Less ops (?v r) (?v c))"
      then obtain pre post where
        p: "list = pre @ r # post" "Contains ops image' r" "Less ops (?v b) (?v r)"
           "\<forall>c\<in>set pre. ?in c \<longrightarrow> Less ops (?v c) (?v r)"
           "\<forall>c\<in>set post. ?in c \<longrightarrow> \<not> Less ops (?v r) (?v c)"
        by blast
      from p(1) have "c # list = (c # pre) @ r # post" by simp
      moreover from p(4) False have "\<forall>c\<in>set (c # pre). ?in c \<longrightarrow> Less ops (?v c) (?v r)"
        by auto
      ultimately show ?thesis using 1 r(2) p(2) p(3) p(5) by blast
    qed
  next
    case True
    show ?thesis
    proof (cases "Less ops (?v b) (?v c)")
      case less: True
      from True have vc: "HasVersion ops c" by simp
      from Cons.IH [OF vc nl] obtain r where
        r: "findMostRecentTag_loop ops image' (Some c) list = Some r" "HasVersion ops r" and
        alt: "(r = c \<and> (\<forall>x\<in>set list. ?in x \<longrightarrow> \<not> Less ops (?v c) (?v x))) \<or>
         (\<exists>pre post. list = pre @ r # post \<and> Contains ops image' r \<and> Less ops (?v c) (?v r) \<and>
            (\<forall>c\<in>set pre. ?in c \<longrightarrow> Less ops (?v c) (?v r)) \<and>
            (\<forall>c\<in>set post. ?in c \<longrightarrow> \<not> Less ops (?v r) (?v c)))"
        by blast
      have 1: "findMostRecentTag_loop ops image' (Some b) (c # list) = Some r"
        using True less Cons.prems r(1) by simp
      from alt show ?thesis
      proof
        assume a: "r = c \<and> (\<forall>x\<in>set list. ?in x \<longrightarrow> \<not> Less ops (?v c) (?v x))"
        then have "c # list = [] @ r # list" by simp
        moreover have "\<forall>c\<in>set []. ?in c \<longrightarrow> Less ops (?v c) (?v r)" by simp
        ultimately show ?thesis using 1 r(2) a True less by blast
      next
        assume "\<exists>pre post. list = pre @ r # post \<and> Contains ops image' r \<and> Less ops (?v c) (?v r) \<and>
            (\<forall>c\<in>set pre. ?in c \<longrightarrow> Less ops (?v c) (?v r)) \<and>
            (\<forall>c\<in>set post. ?in c \<longrightarrow> \<not> Less ops (?v r) (?v c))"
        then obtain pre post where
          p: "list = pre @ r # post" "Contains ops image' r" "Less ops (?v c) (?v r)"
             "\<forall>c\<in>set pre. ?in c \<longrightarrow> Less ops (?v c) (?v r)"
             "\<forall>c\<in>set post. ?in c \<longrightarrow> \<not> Less ops (?v r) (?v c)"
          by blast
        from p(1) have "c # list = (c # pre) @ r # post" by simp
        moreover from p(3) p(4) have "\<forall>x\<in>set (c # pre). ?in x \<longrightarrow> Less ops (?v x) (?v r)"
          by simp
        moreover from less p(3) trans Cons.prems(1) vc r(2) have "Less ops (?v b) (?v r)" by blast
        ultimately show ?thesis using 1 r(2) p(2) p(5) by blast
      qed
    next
      case nless: False
      from Cons.IH [OF Cons.prems(1) nl] obtain r where
        r: "findMostRecentTag_loop ops image' (Some b) list = Some r" "HasVersion ops r" and
        alt: "(r = b \<and> (\<forall>c\<in>set list. ?in c \<longrightarrow> \<not> Less ops (?v b) (?v c))) \<or>
         (\<exists>pre post. list = pre @ r # post \<and> Contains ops image' r \<and> Less ops (?v b) (?v r) \<and>
            (\<forall>c\<in>set pre. ?in c \<longrightarrow> Less ops (?v c) (?v r)) \<and>
            (\<forall>c\<in>set post. ?in c \<longrightarrow> \<not> Less ops (?v r) (?v c)))"
        by blast
      have 1: "findMostRecentTag_loop ops image' (Some b) (c # list) = Some r"
        using True nless Cons.prems r(1) by simp
      from alt show ?thesis
      proof
        assume "r = b \<and> (\<forall>c\<in>set list. ?in c \<longrightarrow> \<not> Less ops (?v b) (?v c))"
        with nless 1 r(2) show ?thesis by auto
      next
        assume "\<exists>pre post. list = pre @ r # post \<and> Contains ops image' r \<and> Less ops (?v b) (?v r) \<and>
            (\<forall>c\<in>set pre. ?in c \<longrightarrow> Less ops (?v c) (?v r)) \<and>
            (\<forall>c\<in>set post. ?in c \<longrightarrow> \<not> Less ops (?v r) (?v c))"
        then obtain pre post where
          p: "list = pre @ r # post" "Contains ops image' r" "Less ops (?v b) (?v r)"
             "\<forall>c\<in>set pre. ?in c \<longrightarrow> Less ops (?v c) (?v r)"
             "\<forall>c\<in>set post. ?in c \<longrightarrow> \<not> Less ops (?v r) (?v c)"
          by blast
        from p(1) have "c # list = (c # pre) @ r # post" by simp
        moreover from p(3) nless negtrans Cons.prems(1) True r(2) have "Less ops (?v c) (?v r)" by blast
        with p(4) have "\<forall>x\<in>set (c # pre). ?in x \<longrightarrow> Less ops (?v x) (?v r)"
          by simp
        ultimately show ?thesis using 1 r(2) p(2) p(3) p(5) by blast
      qed
    qed
  qed
qed

lemma findMostRecentTag_maximal:
  assumes irrefl: "\<forall>a. HasVersion ops a \<longrightarrow> \<not> Less ops (TagAsVersion ops a) (TagAsVersion ops a)"
      and trans: "\<forall>a b c. HasVersion ops a \<and> HasVersion ops b \<and> HasVersion ops c
          \<and> Less ops (TagAsVersion ops a) (TagAsVersion ops b)
          \<and> Less ops (TagAsVersion ops b) (TagAsVersion ops c)
        \<longrightarrow> Less ops (TagAsVersion ops a) (TagAsVersion ops c)"
      and nolatest: "\<forall>c\<in>set list. Contains ops image' c \<longrightarrow> GetTag ops c \<noteq> Latest"
      and first: "List.find (Contains ops image') list = Some b" "HasVersion ops b"
  shows "\<exists>r. findMostRecentTag ops image' list = Some r \<and> r \<in> set list \<and>
           Contains ops image' r \<and> HasVersion ops r \<and>
           (\<forall>c\<in>set list. Contains ops image' c \<and> HasVersion ops c
              \<longrightarrow> \<not> Less ops (TagAsVersion ops r) (TagAsVersion ops c))"
proof -
  let ?v = "TagAsVersion ops"
  from first(1) have bin: "b \<in> set list" "Contains ops image' b"
    by (auto simp: find_Some_iff)
  with nolatest have "GetTag ops b \<noteq> Latest" by blast
  from loop_first [OF first(1) this] obtain pre rest where
    d: "list = pre @ b # rest" "\<forall>c\<in>set pre. \<not> Contains ops image' c"
       "findMostRecentTag_loop ops image' None list = findMostRecentTag_loop ops image' (Some b) rest"
    by blast
  from nolatest d(1) have nl: "\<forall>c\<in>set rest. Contains ops image' c \<longrightarrow> GetTag ops c \<noteq> Latest"
    by simp
  from loop_maximal [OF irrefl trans first(2) nl] obtain r where
    r: "findMostRecentTag_loop ops image' (Some b) rest = Some r" "HasVersion ops r"
       "r = b \<or> (r \<in> set rest \<and> Contains ops image' r \<and> Less ops (?v b) (?v r))"
       "\<forall>c\<in>set rest. Contains ops image' c \<and> HasVersion ops c \<longrightarrow> \<not> Less ops (?v r) (?v c)"
    by blast
  have 1: "findMostRecentTag ops image' list = Some r"
    using d(3) r(1) by (simp add: findMostRecentTag_def)
  have 2: "r \<in> set list \<and> Contains ops image' r"
    using r(3) bin d(1) by auto
  have 3: "\<not> Less ops (?v r) (?v b)"
    using r(3) r(2) first(2) irrefl trans by blast
  have 4: "\<forall>c\<in>set list. Contains ops image' c \<and> HasVersion ops c \<longrightarrow> \<not> Less ops (?v r) (?v c)"
    using d(1) d(2) 3 r(4) by auto
  from 1 2 r(2) 4 show ?thesis by blast
qed

text \<open>
  What the loop returns is \<open>img\<close> or a contained candidate of the list, and it is not
  nil when \<open>img\<close> is not nil or some candidate is contained.
\<close>

lemma loop_result_in_range:
  "findMostRecentTag_loop ops image' img list = Some r \<Longrightarrow>
     img = Some r \<or> (r \<in> set list \<and> Contains ops image' r)"
proof (induction list arbitrary: img)
  case Nil
  then show ?case by simp
next
  case (Cons c list)
  show ?case
  proof (cases "Contains ops image' c")
    case False
    with Cons.prems have "findMostRecentTag_loop ops image' img list = Some r" by simp
    from Cons.IH [OF this] show ?thesis by auto
  next
    case True
    show ?thesis
    proof (cases "GetTag ops c = Latest")
      case latest: True
      with True Cons.prems show ?thesis by simp
    next
      case False
      from Cons.prems True False have
        "findMostRecentTag_loop ops image' img list = Some r \<or>
         findMostRecentTag_loop ops image' (Some c) list = Some r"
        by (auto split: option.splits if_splits)
      then show ?thesis
      proof
        assume "findMostRecentTag_loop ops image' img list = Some r"
        from Cons.IH [OF this] show ?thesis by auto
      next
        assume "findMostRecentTag_loop ops image' (Some c) list = Some r"
        from Cons.IH [OF this] True show ?thesis by auto
      qed
    qed
  qed
qed

lemma loop_not_none:
  "img \<noteq> None \<or> (\<exists>c\<in>set list. Contains ops image' c) \<Longrightarrow>
     findMostRecentTag_loop ops image' img list \<noteq> None"
proof (induction list arbitrary: img)
  case Nil
  then show ?case by simp
next
  case (Cons c list)
  show ?case
  proof (cases "Contains ops image' c")
    case False
    with Cons.prems have "img \<noteq> None \<or> (\<exists>c\<in>set list. Contains ops image' c)" by auto
    from Cons.IH [OF this] False show ?thesis by simp
  next
    case True
    have 1: "findMostRecentTag_loop ops image' (Some c) list \<noteq> None"
      by (rule Cons.IH) simp
    have 2: "findMostRecentTag_loop ops image' (Some x) list \<noteq> None" for x
      by (rule Cons.IH) simp
    from True 1 2 show ?thesis
      by (auto split: option.splits)
  qed
qed

lemma findMostRecentTag_in_range:
  assumes "\<exists>c\<in>set list. Contains ops image' c"
  shows "\<exists>r. findMostRecentTag ops image' list = Some r \<and> r \<in> set list \<and> Contains ops image' r"
proof -
  from assms loop_not_none [of None list ops image'] obtain r where
    r: "findMostRecentTag_loop ops image' None list = Some r"
    by auto
  from loop_result_in_range [OF r] r show ?thesis
    by (simp add: findMostRecentTag_def)
qed

text \<open>
  With the first contained candidate versioned and no contained "latest": the result
  splits the list so that every contained versioned candidate before it is strictly
  smaller and none behind it is greater.
\<close>

lemma findMostRecentTag_earliest:
  assumes trans: "\<forall>a b c. HasVersion ops a \<and> HasVersion ops b \<and> HasVersion ops c
          \<and> Less ops (TagAsVersion ops a) (TagAsVersion ops b)
          \<and> Less ops (TagAsVersion ops b) (TagAsVersion ops c)
        \<longrightarrow> Less ops (TagAsVersion ops a) (TagAsVersion ops c)"
      and negtrans: "\<forall>a b c. HasVersion ops a \<and> HasVersion ops b \<and> HasVersion ops c
          \<and> Less ops (TagAsVersion ops a) (TagAsVersion ops c)
        \<longrightarrow> Less ops (TagAsVersion ops a) (TagAsVersion ops b)
            \<or> Less ops (TagAsVersion ops b) (TagAsVersion ops c)"
      and nolatest: "\<forall>c\<in>set list. Contains ops image' c \<longrightarrow> GetTag ops c \<noteq> Latest"
      and first: "List.find (Contains ops image') list = Some b" "HasVersion ops b"
  shows "\<exists>r pre post. findMostRecentTag ops image' list = Some r \<and> list = pre @ r # post \<and>
           (\<forall>c\<in>set pre. Contains ops image' c \<and> HasVersion ops c
              \<longrightarrow> Less ops (TagAsVersion ops c) (TagAsVersion ops r)) \<and>
           (\<forall>c\<in>set post. Contains ops image' c \<and> HasVersion ops c
              \<longrightarrow> \<not> Less ops (TagAsVersion ops r) (TagAsVersion ops c))"
proof -
  let ?v = "TagAsVersion ops"
  let ?in = "\<lambda>c. Contains ops image' c \<and> HasVersion ops c"
  from first(1) nolatest have "GetTag ops b \<noteq> Latest"
    by (auto simp: find_Some_iff)
  from loop_first [OF first(1) this] obtain pre0 rest where
    d: "list = pre0 @ b # rest" "\<forall>c\<in>set pre0. \<not> Contains ops image' c"
       "findMostRecentTag_loop ops image' None list = findMostRecentTag_loop ops image' (Some b) rest"
    by blast
  from nolatest d(1) have nl: "\<forall>c\<in>set rest. Contains ops image' c \<longrightarrow> GetTag ops c \<noteq> Latest"
    by simp
  from loop_earliest [OF trans negtrans first(2) nl] obtain r where
    r: "findMostRecentTag_loop ops image' (Some b) rest = Some r" and
    alt: "(r = b \<and> (\<forall>c\<in>set rest. ?in c \<longrightarrow> \<not> Less ops (?v b) (?v c))) \<or>
       (\<exists>pre post. rest = pre @ r # post \<and> Contains ops image' r \<and> Less ops (?v b) (?v r) \<and>
          (\<forall>c\<in>set pre. ?in c \<longrightarrow> Less ops (?v c) (?v r)) \<and>
          (\<forall>c\<in>set post. ?in c \<longrightarrow> \<not> Less ops (?v r) (?v c)))"
    by blast
  from r d(3) have f: "findMostRecentTag ops image' list = Some r"
    by (simp add: findMostRecentTag_def)
  from alt show ?thesis
  proof
    assume a: "r = b \<and> (\<forall>c\<in>set rest. ?in c \<longrightarrow> \<not> Less ops (?v b) (?v c))"
    with d(1) d(2) have
      "list = pre0 @ r # rest \<and> (\<forall>c\<in>set pre0. ?in c \<longrightarrow> Less ops (?v c) (?v r)) \<and>
       (\<forall>c\<in>set rest. ?in c \<longrightarrow> \<not> Less ops (?v r) (?v c))"
      by simp
    with f show ?thesis by blast
  next
    assume "\<exists>pre post. rest = pre @ r # post \<and> Contains ops image' r \<and> Less ops (?v b) (?v r) \<and>
          (\<forall>c\<in>set pre. ?in c \<longrightarrow> Less ops (?v c) (?v r)) \<and>
          (\<forall>c\<in>set post. ?in c \<longrightarrow> \<not> Less ops (?v r) (?v c))"
    then obtain pre post where
      p: "rest = pre @ r # post" "Less ops (?v b) (?v r)"
         "\<forall>c\<in>set pre. ?in c \<longrightarrow> Less ops (?v c) (?v r)"
         "\<forall>c\<in>set post. ?in c \<longrightarrow> \<not> Less ops (?v r) (?v c)"
      by blast
    from d(1) p(1) have 1: "list = (pre0 @ b # pre) @ r # post" by simp
    from d(2) p(2) p(3)
    have 2: "\<forall>c\<in>set (pre0 @ b # pre). ?in c \<longrightarrow> Less ops (?v c) (?v r)"
      by auto
    from f 1 2 p(4) show ?thesis by blast
  qed
qed

subsection \<open>The sample versions are strictly weakly ordered\<close>

lemma sample_Less_irrefl: "\<not> sample_Less v v"
  by (cases v) auto

lemma sample_Less_trans: "sample_Less u v \<Longrightarrow> sample_Less v w \<Longrightarrow> sample_Less u w"
  by (cases u; cases v; cases w) auto

lemma sample_Less_negtrans:
  "v \<noteq> None \<Longrightarrow> sample_Less u w \<Longrightarrow> sample_Less u v \<or> sample_Less v w"
  by (cases u; cases v; cases w) auto

lemma sample_irrefl:
  "\<forall>a. HasVersion sample_imagename a \<longrightarrow>
     \<not> Less sample_imagename (TagAsVersion sample_imagename a) (TagAsVersion sample_imagename a)"
  by (simp add: sample_imagename_def sample_Less_irrefl)

lemma sample_trans:
  "\<forall>a b c. HasVersion sample_imagename a \<and> HasVersion sample_imagename b \<and> HasVersion sample_imagename c
        \<and> Less sample_imagename (TagAsVersion sample_imagename a) (TagAsVersion sample_imagename b)
        \<and> Less sample_imagename (TagAsVersion sample_imagename b) (TagAsVersion sample_imagename c)
      \<longrightarrow> Less sample_imagename (TagAsVersion sample_imagename a) (TagAsVersion sample_imagename c)"
  using sample_Less_trans by (auto simp: sample_imagename_def)

lemma sample_negtrans:
  "\<forall>a b c. HasVersion sample_imagename a \<and> HasVersion sample_imagename b \<and> HasVersion sample_imagename c
        \<and> Less sample_imagename (TagAsVersion sample_imagename a) (TagAsVersion sample_imagename c)
      \<longrightarrow> Less sample_imagename (TagAsVersion sample_imagename a) (TagAsVersion sample_imagename b)
          \<or> Less sample_imagename (TagAsVersion sample_imagename b) (TagAsVersion sample_imagename c)"
  using sample_Less_negtrans by (auto simp: sample_imagename_def)

subsection \<open>"latest" wins\<close>



subsection \<open>The greatest version\<close>

text \<open>
  C1, as stated, fails. The first contained candidate is adopted whether or not it has a
  version (lines 235-238), and line 246 only replaces a best that has a version: with
  the wildcard \<open>repo:*\<close> and the candidates \<open>repo:nightly\<close>, \<open>repo:1.0.0\<close> in this
  order, the result is \<open>repo:nightly\<close>, although \<open>repo:1.0.0\<close> is contained and has a
  version.
\<close>

theorem findMostRecentTag_greatest_version_counterexample:
  "Contains sample_imagename (sample_New ''repo'' ''*'') (sample_New ''repo'' ''1.0.0'') \<and>
   HasVersion sample_imagename (sample_New ''repo'' ''1.0.0'') \<and>
   GetTag sample_imagename (sample_New ''repo'' ''nightly'') \<noteq> Latest \<and>
   GetTag sample_imagename (sample_New ''repo'' ''1.0.0'') \<noteq> Latest \<and>
   findMostRecentTag sample_imagename (sample_New ''repo'' ''*'')
     [sample_New ''repo'' ''nightly'', sample_New ''repo'' ''1.0.0'']
     = Some (sample_New ''repo'' ''nightly'') \<and>
   \<not> HasVersion sample_imagename (sample_New ''repo'' ''nightly'') \<and>
   sample_New ''repo'' ''nightly'' \<noteq> sample_New ''repo'' ''1.0.0''"
  by code_simp

text \<open>
  C1, amended. If no contained candidate is tagged "latest" and the first contained
  candidate has a parseable version, then \<open>findMostRecentTag\<close> returns a contained
  candidate with a parseable version such that no contained candidate's parsed version is
  greater, and every contained candidate with a version that stands before it in the list
  is strictly smaller: the result is the earliest contained candidate of greatest
  version. \<open>Less\<close> is assumed to be a strict weak order on the versions of images that
  have one.
\<close>

theorem findMostRecentTag_greatest_version:
  assumes irrefl: "\<forall>a. HasVersion ops a \<longrightarrow> \<not> Less ops (TagAsVersion ops a) (TagAsVersion ops a)"
      and trans: "\<forall>a b c. HasVersion ops a \<and> HasVersion ops b \<and> HasVersion ops c
          \<and> Less ops (TagAsVersion ops a) (TagAsVersion ops b)
          \<and> Less ops (TagAsVersion ops b) (TagAsVersion ops c)
        \<longrightarrow> Less ops (TagAsVersion ops a) (TagAsVersion ops c)"
      and negtrans: "\<forall>a b c. HasVersion ops a \<and> HasVersion ops b \<and> HasVersion ops c
          \<and> Less ops (TagAsVersion ops a) (TagAsVersion ops c)
        \<longrightarrow> Less ops (TagAsVersion ops a) (TagAsVersion ops b)
            \<or> Less ops (TagAsVersion ops b) (TagAsVersion ops c)"
      and nolatest: "\<forall>c\<in>set list. Contains ops image' c \<longrightarrow> GetTag ops c \<noteq> Latest"
      and first: "List.find (Contains ops image') list = Some b" "HasVersion ops b"
  shows "\<exists>r pre post. findMostRecentTag ops image' list = Some r \<and> list = pre @ r # post \<and>
           Contains ops image' r \<and> HasVersion ops r \<and>
           (\<forall>c\<in>set list. Contains ops image' c \<and> HasVersion ops c
              \<longrightarrow> \<not> Less ops (TagAsVersion ops r) (TagAsVersion ops c)) \<and>
           (\<forall>c\<in>set pre. Contains ops image' c \<and> HasVersion ops c
              \<longrightarrow> Less ops (TagAsVersion ops c) (TagAsVersion ops r))"
proof -
  let ?v = "TagAsVersion ops"
  let ?in = "\<lambda>c. Contains ops image' c \<and> HasVersion ops c"
  from first(1) have bin: "Contains ops image' b"
    by (auto simp: find_Some_iff)
  from first(1) nolatest have "GetTag ops b \<noteq> Latest"
    by (auto simp: find_Some_iff)
  from loop_first [OF first(1) this] obtain pre0 rest where
    d: "list = pre0 @ b # rest" "\<forall>c\<in>set pre0. \<not> Contains ops image' c"
       "findMostRecentTag_loop ops image' None list = findMostRecentTag_loop ops image' (Some b) rest"
    by blast
  from nolatest d(1) have nl: "\<forall>c\<in>set rest. Contains ops image' c \<longrightarrow> GetTag ops c \<noteq> Latest"
    by simp
  from findMostRecentTag_maximal [OF irrefl trans nolatest first] obtain r where
    m: "findMostRecentTag ops image' list = Some r" "Contains ops image' r" "HasVersion ops r"
       "\<forall>c\<in>set list. ?in c \<longrightarrow> \<not> Less ops (?v r) (?v c)"
    by blast
  from m(1) d(3) have lr: "findMostRecentTag_loop ops image' (Some b) rest = Some r"
    by (simp add: findMostRecentTag_def)
  from loop_earliest [OF trans negtrans first(2) nl] lr have
    alt: "r = b \<or>
       (\<exists>pre post. rest = pre @ r # post \<and> Less ops (?v b) (?v r) \<and>
          (\<forall>c\<in>set pre. ?in c \<longrightarrow> Less ops (?v c) (?v r)))"
    by auto
  have "\<exists>pre post. list = pre @ r # post \<and> (\<forall>c\<in>set pre. ?in c \<longrightarrow> Less ops (?v c) (?v r))"
    using alt
  proof
    assume "r = b"
    with d(1) d(2) have "list = pre0 @ r # rest \<and> (\<forall>c\<in>set pre0. ?in c \<longrightarrow> Less ops (?v c) (?v r))"
      by simp
    then show ?thesis by blast
  next
    assume "\<exists>pre post. rest = pre @ r # post \<and> Less ops (?v b) (?v r) \<and>
          (\<forall>c\<in>set pre. ?in c \<longrightarrow> Less ops (?v c) (?v r))"
    then obtain pre post where
      p: "rest = pre @ r # post" "Less ops (?v b) (?v r)"
         "\<forall>c\<in>set pre. ?in c \<longrightarrow> Less ops (?v c) (?v r)"
      by blast
    from d(1) p(1) have "list = (pre0 @ b # pre) @ r # post" by simp
    moreover from d(2) p(2) p(3)
    have "\<forall>c\<in>set (pre0 @ b # pre). ?in c \<longrightarrow> Less ops (?v c) (?v r)"
      by auto
    ultimately show ?thesis by blast
  qed
  with m show ?thesis by blast
qed

theorem findMostRecentTag_greatest_version_witness:
  "findMostRecentTag sample_imagename (sample_New ''repo'' ''~1.2.3'')
     [sample_New ''other'' ''1.2.9'', sample_New ''repo'' ''1.2.5'', sample_New ''repo'' ''1.3.0'',
      sample_New ''repo'' ''1.2.7'', sample_New ''repo'' ''nightly'', sample_New ''repo'' ''1.2.07'']
     = Some (sample_New ''repo'' ''1.2.7'') \<and>
   (\<exists>r pre post.
      findMostRecentTag sample_imagename (sample_New ''repo'' ''~1.2.3'')
        [sample_New ''other'' ''1.2.9'', sample_New ''repo'' ''1.2.5'', sample_New ''repo'' ''1.3.0'',
         sample_New ''repo'' ''1.2.7'', sample_New ''repo'' ''nightly'', sample_New ''repo'' ''1.2.07'']
        = Some r \<and>
      [sample_New ''other'' ''1.2.9'', sample_New ''repo'' ''1.2.5'', sample_New ''repo'' ''1.3.0'',
       sample_New ''repo'' ''1.2.7'', sample_New ''repo'' ''nightly'', sample_New ''repo'' ''1.2.07'']
        = pre @ r # post \<and>
      Contains sample_imagename (sample_New ''repo'' ''~1.2.3'') r \<and> HasVersion sample_imagename r \<and>
      (\<forall>c\<in>set [sample_New ''other'' ''1.2.9'', sample_New ''repo'' ''1.2.5'',
                 sample_New ''repo'' ''1.3.0'', sample_New ''repo'' ''1.2.7'',
                 sample_New ''repo'' ''nightly'', sample_New ''repo'' ''1.2.07''].
          Contains sample_imagename (sample_New ''repo'' ''~1.2.3'') c \<and> HasVersion sample_imagename c
          \<longrightarrow> \<not> Less sample_imagename (TagAsVersion sample_imagename r)
                    (TagAsVersion sample_imagename c)) \<and>
      (\<forall>c\<in>set pre.
          Contains sample_imagename (sample_New ''repo'' ''~1.2.3'') c \<and> HasVersion sample_imagename c
          \<longrightarrow> Less sample_imagename (TagAsVersion sample_imagename c)
                (TagAsVersion sample_imagename r)))"
proof -
  let ?L = "[sample_New ''other'' ''1.2.9'', sample_New ''repo'' ''1.2.5'',
             sample_New ''repo'' ''1.3.0'', sample_New ''repo'' ''1.2.7'',
             sample_New ''repo'' ''nightly'', sample_New ''repo'' ''1.2.07'']"
  let ?I = "sample_New ''repo'' ''~1.2.3''"
  have nl: "\<forall>c\<in>set ?L. Contains sample_imagename ?I c \<longrightarrow> GetTag sample_imagename c \<noteq> Latest"
    by code_simp
  have f: "List.find (Contains sample_imagename ?I) ?L = Some (sample_New ''repo'' ''1.2.5'')"
    by code_simp
  have v: "HasVersion sample_imagename (sample_New ''repo'' ''1.2.5'')"
    by code_simp
  have e: "findMostRecentTag sample_imagename ?I ?L = Some (sample_New ''repo'' ''1.2.7'')"
    by code_simp
  from e findMostRecentTag_greatest_version
           [OF sample_irrefl sample_trans sample_negtrans nl f v]
  show ?thesis by (rule conjI)
qed

subsection \<open>The order of the candidates\<close>

text \<open>
  \<open>read\<close> is what the caller reads from the selected candidate: its \<open>Tag\<close> field
  (line 150), its \<open>GetTag()\<close>, or the candidate itself. Two lists with the same
  candidates give the same reading when the contained candidates tagged "latest" agree on
  it and, unless there is one, any two contained candidates that differ in it have
  versions of which one is \<open>Less\<close> than the other.
\<close>

lemma permutation_same_read:
  assumes irrefl: "\<forall>a. HasVersion ops a \<longrightarrow> \<not> Less ops (TagAsVersion ops a) (TagAsVersion ops a)"
      and trans: "\<forall>a b c. HasVersion ops a \<and> HasVersion ops b \<and> HasVersion ops c
          \<and> Less ops (TagAsVersion ops a) (TagAsVersion ops b)
          \<and> Less ops (TagAsVersion ops b) (TagAsVersion ops c)
        \<longrightarrow> Less ops (TagAsVersion ops a) (TagAsVersion ops c)"
      and sets: "set xs = set ys"
      and latest: "\<forall>a\<in>set xs. \<forall>b\<in>set xs.
          Contains ops image' a \<and> GetTag ops a = Latest \<and>
          Contains ops image' b \<and> GetTag ops b = Latest \<longrightarrow> read a = read b"
      and ordered: "(\<exists>c\<in>set xs. Contains ops image' c \<and> GetTag ops c = Latest) \<or>
          (\<forall>a\<in>set xs. \<forall>b\<in>set xs.
             Contains ops image' a \<and> Contains ops image' b \<and> read a \<noteq> read b
             \<longrightarrow> HasVersion ops a \<and> HasVersion ops b \<and>
                 (Less ops (TagAsVersion ops a) (TagAsVersion ops b)
                  \<or> Less ops (TagAsVersion ops b) (TagAsVersion ops a)))"
  shows "map_option read (findMostRecentTag ops image' xs)
       = map_option read (findMostRecentTag ops image' ys)"
proof -
  let ?v = "TagAsVersion ops"
  let ?P = "\<lambda>c. Contains ops image' c \<and> GetTag ops c = Latest"
  show ?thesis
  proof (cases "\<exists>c\<in>set xs. ?P c")
    case True
    have first_latest: "\<exists>r. findMostRecentTag ops image' zs = Some r \<and> r \<in> set xs \<and> ?P r"
      if z: "set zs = set xs" for zs
    proof -
      from True z have ex: "\<exists>c\<in>set zs. ?P c" by simp
      then have "List.find ?P zs \<noteq> None" by (auto simp: find_None_iff)
      then obtain r where r: "List.find ?P zs = Some r" by blast
      then have "r \<in> set zs \<and> ?P r" by (auto simp: find_Some_iff)
      with z have "r \<in> set xs \<and> ?P r" by simp
      moreover from loop_latest [OF ex, of None] r
      have "findMostRecentTag ops image' zs = Some r"
        by (simp add: findMostRecentTag_def)
      ultimately show ?thesis by blast
    qed
    from first_latest [OF refl] obtain r where
      r: "findMostRecentTag ops image' xs = Some r" "r \<in> set xs" "?P r" by blast
    from first_latest [OF sets [symmetric]] obtain r' where
      r': "findMostRecentTag ops image' ys = Some r'" "r' \<in> set xs" "?P r'" by blast
    from latest r(2) r(3) r'(2) r'(3) have "read r = read r'" by blast
    with r(1) r'(1) show ?thesis by simp
  next
    case False
    then have nlx: "\<forall>c\<in>set xs. Contains ops image' c \<longrightarrow> GetTag ops c \<noteq> Latest" by blast
    from False ordered have ord: "\<forall>a\<in>set xs. \<forall>b\<in>set xs.
             Contains ops image' a \<and> Contains ops image' b \<and> read a \<noteq> read b
             \<longrightarrow> HasVersion ops a \<and> HasVersion ops b \<and>
                 (Less ops (?v a) (?v b) \<or> Less ops (?v b) (?v a))"
      by blast
    show ?thesis
    proof (cases "\<exists>c\<in>set xs. Contains ops image' c")
      case none: False
      then have nx: "\<forall>c\<in>set xs. \<not> Contains ops image' c" by blast
      with sets have ny: "\<forall>c\<in>set ys. \<not> Contains ops image' c" by blast
      from loop_none_contained [OF nx, of None] loop_none_contained [OF ny, of None]
      show ?thesis
        by (simp add: findMostRecentTag_def)
    next
      case some: True
      from some findMostRecentTag_in_range [of xs ops image'] obtain r where
        r: "findMostRecentTag ops image' xs = Some r" "r \<in> set xs" "Contains ops image' r"
        by blast
      from some sets have "\<exists>c\<in>set ys. Contains ops image' c" by simp
      from findMostRecentTag_in_range [OF this] obtain r' where
        r'0: "findMostRecentTag ops image' ys = Some r'" "r' \<in> set ys" "Contains ops image' r'"
        by blast
      from r'0(2) sets have r'in: "r' \<in> set xs" by simp
      have "read r = read r'"
      proof (rule ccontr)
        assume ne: "read r \<noteq> read r'"
        have allv: "HasVersion ops c" if "c \<in> set xs" "Contains ops image' c" for c
        proof (cases "read c = read r")
          case True
          with ne have "read c \<noteq> read r'" by simp
          with ord that r'in r'0(3) show ?thesis by blast
        next
          case False
          with ord that r(2) r(3) show ?thesis by blast
        qed
        have maxi: "\<exists>m. findMostRecentTag ops image' zs = Some m \<and>
             (\<forall>c\<in>set zs. Contains ops image' c \<and> HasVersion ops c
                \<longrightarrow> \<not> Less ops (?v m) (?v c))"
          if z: "set zs = set xs" for zs
        proof -
          from some z have "List.find (Contains ops image') zs \<noteq> None"
            by (auto simp: find_None_iff)
          then obtain b where b: "List.find (Contains ops image') zs = Some b" by blast
          then have "b \<in> set zs" "Contains ops image' b" by (auto simp: find_Some_iff)
          with z allv have vb: "HasVersion ops b" by simp
          from z nlx have "\<forall>c\<in>set zs. Contains ops image' c \<longrightarrow> GetTag ops c \<noteq> Latest"
            by blast
          from findMostRecentTag_maximal [OF irrefl trans this b vb] show ?thesis by blast
        qed
        from maxi [OF refl] r(1) have mx: "\<forall>c\<in>set xs. Contains ops image' c \<and> HasVersion ops c
                \<longrightarrow> \<not> Less ops (?v r) (?v c)"
          by simp
        from maxi [OF sets [symmetric]] r'0(1) have my: "\<forall>c\<in>set ys. Contains ops image' c \<and> HasVersion ops c
                \<longrightarrow> \<not> Less ops (?v r') (?v c)"
          by simp
        from r(2) sets have rin: "r \<in> set ys" by simp
        from mx r'in r'0(3) allv have m: "\<not> Less ops (?v r) (?v r')" by blast
        from my rin r(3) r(2) allv have m': "\<not> Less ops (?v r') (?v r)" by blast
        from ord r(2) r(3) r'in r'0(3) ne
        have "Less ops (?v r) (?v r') \<or> Less ops (?v r') (?v r)" by blast
        with m m' show False by blast
      qed
      with r(1) r'0(1) show ?thesis by simp
    qed
  qed
qed

text \<open>
  C3, as stated, fails, in two ways. A contained candidate without a version makes the
  result depend on the order, although no two contained candidates have equal versions:
  \<open>repo:nightly\<close> before \<open>repo:1.0.0\<close> selects the tag "nightly", the other order
  selects "1.0.0". And when \<open>GetTag\<close> reads a missing tag as "latest", the candidates
  \<open>repo\<close> and \<open>repo:latest\<close> are both returned at line 231 when they come first, and
  the \<open>Tag\<close> that line 150 reads is empty in one order and "latest" in the other.
\<close>

theorem findMostRecentTag_permutation_counterexample:
  "mset [sample_New ''repo'' ''nightly'', sample_New ''repo'' ''1.0.0'']
     = mset [sample_New ''repo'' ''1.0.0'', sample_New ''repo'' ''nightly''] \<and>
   \<not> HasVersion sample_imagename (sample_New ''repo'' ''nightly'') \<and>
   map_option (Tag sample_imagename)
     (findMostRecentTag sample_imagename (sample_New ''repo'' ''*'')
        [sample_New ''repo'' ''nightly'', sample_New ''repo'' ''1.0.0'']) = Some ''nightly'' \<and>
   map_option (Tag sample_imagename)
     (findMostRecentTag sample_imagename (sample_New ''repo'' ''*'')
        [sample_New ''repo'' ''1.0.0'', sample_New ''repo'' ''nightly'']) = Some ''1.0.0'' \<and>
   mset [sample_New ''repo'' [], sample_New ''repo'' ''latest'']
     = mset [sample_New ''repo'' ''latest'', sample_New ''repo'' []] \<and>
   GetTag sample_imagename_default (sample_New ''repo'' []) = Latest \<and>
   GetTag sample_imagename_default (sample_New ''repo'' ''latest'') = Latest \<and>
   \<not> HasVersion sample_imagename_default (sample_New ''repo'' []) \<and>
   \<not> HasVersion sample_imagename_default (sample_New ''repo'' ''latest'') \<and>
   map_option (Tag sample_imagename_default)
     (findMostRecentTag sample_imagename_default (sample_New ''repo'' ''*'')
        [sample_New ''repo'' [], sample_New ''repo'' ''latest'']) = Some [] \<and>
   map_option (Tag sample_imagename_default)
     (findMostRecentTag sample_imagename_default (sample_New ''repo'' ''*'')
        [sample_New ''repo'' ''latest'', sample_New ''repo'' []]) = Some ''latest''"
proof -
  have "mset [sample_New ''repo'' ''nightly'', sample_New ''repo'' ''1.0.0'']
     = mset [sample_New ''repo'' ''1.0.0'', sample_New ''repo'' ''nightly'']"
    by simp
  moreover have "\<not> HasVersion sample_imagename (sample_New ''repo'' ''nightly'')"
    by code_simp
  moreover have "map_option (Tag sample_imagename)
     (findMostRecentTag sample_imagename (sample_New ''repo'' ''*'')
        [sample_New ''repo'' ''nightly'', sample_New ''repo'' ''1.0.0'']) = Some ''nightly''"
    by code_simp
  moreover have "map_option (Tag sample_imagename)
     (findMostRecentTag sample_imagename (sample_New ''repo'' ''*'')
        [sample_New ''repo'' ''1.0.0'', sample_New ''repo'' ''nightly'']) = Some ''1.0.0''"
    by code_simp
  moreover have "mset [sample_New ''repo'' [], sample_New ''repo'' ''latest'']
     = mset [sample_New ''repo'' ''latest'', sample_New ''repo'' []]"
    by simp
  moreover have "GetTag sample_imagename_default (sample_New ''repo'' []) = Latest"
    by code_simp
  moreover have "GetTag sample_imagename_default (sample_New ''repo'' ''latest'') = Latest"
    by code_simp
  moreover have "\<not> HasVersion sample_imagename_default (sample_New ''repo'' [])"
    by code_simp
  moreover have "\<not> HasVersion sample_imagename_default (sample_New ''repo'' ''latest'')"
    by code_simp
  moreover have "map_option (Tag sample_imagename_default)
     (findMostRecentTag sample_imagename_default (sample_New ''repo'' ''*'')
        [sample_New ''repo'' [], sample_New ''repo'' ''latest'']) = Some []"
    by code_simp
  moreover have "map_option (Tag sample_imagename_default)
     (findMostRecentTag sample_imagename_default (sample_New ''repo'' ''*'')
        [sample_New ''repo'' ''latest'', sample_New ''repo'' []]) = Some ''latest''"
    by code_simp
  ultimately show ?thesis by blast
qed

text \<open>
  C3, amended. For a fixed image and two candidate lists that are permutations of each
  other, \<open>findMostRecentTag\<close> selects the same tag (\<open>read\<close>: the \<open>Tag\<close> field, and
  likewise \<open>GetTag()\<close> or the candidate itself), provided the contained candidates that
  are tagged "latest" carry the same tag and, unless some contained candidate is tagged
  "latest", any two contained candidates with different tags both have parseable versions
  of which one is strictly less than the other. Where contained candidates with versions
  tie, the earlier-seen wins: when no contained candidate is tagged "latest" and the first
  contained candidate has a version, every contained candidate with a version before the
  selected one is strictly smaller and none behind it is greater. \<open>Less\<close> is assumed to
  be a strict weak order on the versions of images that have one.
\<close>

theorem findMostRecentTag_permutation:
  assumes irrefl: "\<forall>a. HasVersion ops a \<longrightarrow> \<not> Less ops (TagAsVersion ops a) (TagAsVersion ops a)"
      and trans: "\<forall>a b c. HasVersion ops a \<and> HasVersion ops b \<and> HasVersion ops c
          \<and> Less ops (TagAsVersion ops a) (TagAsVersion ops b)
          \<and> Less ops (TagAsVersion ops b) (TagAsVersion ops c)
        \<longrightarrow> Less ops (TagAsVersion ops a) (TagAsVersion ops c)"
      and negtrans: "\<forall>a b c. HasVersion ops a \<and> HasVersion ops b \<and> HasVersion ops c
          \<and> Less ops (TagAsVersion ops a) (TagAsVersion ops c)
        \<longrightarrow> Less ops (TagAsVersion ops a) (TagAsVersion ops b)
            \<or> Less ops (TagAsVersion ops b) (TagAsVersion ops c)"
      and perm: "mset xs = mset ys"
  shows "((\<forall>a\<in>set xs. \<forall>b\<in>set xs.
             Contains ops image' a \<and> GetTag ops a = Latest \<and>
             Contains ops image' b \<and> GetTag ops b = Latest \<longrightarrow> read a = read b) \<and>
          ((\<exists>c\<in>set xs. Contains ops image' c \<and> GetTag ops c = Latest) \<or>
           (\<forall>a\<in>set xs. \<forall>b\<in>set xs.
              Contains ops image' a \<and> Contains ops image' b \<and> read a \<noteq> read b
              \<longrightarrow> HasVersion ops a \<and> HasVersion ops b \<and>
                  (Less ops (TagAsVersion ops a) (TagAsVersion ops b)
                   \<or> Less ops (TagAsVersion ops b) (TagAsVersion ops a))))
          \<longrightarrow> map_option read (findMostRecentTag ops image' xs)
              = map_option read (findMostRecentTag ops image' ys)) \<and>
         ((\<forall>c\<in>set xs. Contains ops image' c \<longrightarrow> GetTag ops c \<noteq> Latest) \<and>
          (\<exists>b. List.find (Contains ops image') xs = Some b \<and> HasVersion ops b)
          \<longrightarrow> (\<exists>r pre post. findMostRecentTag ops image' xs = Some r \<and> xs = pre @ r # post \<and>
                 (\<forall>c\<in>set pre. Contains ops image' c \<and> HasVersion ops c
                    \<longrightarrow> Less ops (TagAsVersion ops c) (TagAsVersion ops r)) \<and>
                 (\<forall>c\<in>set post. Contains ops image' c \<and> HasVersion ops c
                    \<longrightarrow> \<not> Less ops (TagAsVersion ops r) (TagAsVersion ops c))))"
proof (intro conjI impI)
  assume h: "(\<forall>a\<in>set xs. \<forall>b\<in>set xs.
             Contains ops image' a \<and> GetTag ops a = Latest \<and>
             Contains ops image' b \<and> GetTag ops b = Latest \<longrightarrow> read a = read b) \<and>
          ((\<exists>c\<in>set xs. Contains ops image' c \<and> GetTag ops c = Latest) \<or>
           (\<forall>a\<in>set xs. \<forall>b\<in>set xs.
              Contains ops image' a \<and> Contains ops image' b \<and> read a \<noteq> read b
              \<longrightarrow> HasVersion ops a \<and> HasVersion ops b \<and>
                  (Less ops (TagAsVersion ops a) (TagAsVersion ops b)
                   \<or> Less ops (TagAsVersion ops b) (TagAsVersion ops a))))"
  from perm have sets: "set xs = set ys" by (rule mset_eq_setD)
  from permutation_same_read
         [OF irrefl trans sets conjunct1 [OF h] conjunct2 [OF h]]
  show "map_option read (findMostRecentTag ops image' xs)
      = map_option read (findMostRecentTag ops image' ys)" .
next
  assume h: "(\<forall>c\<in>set xs. Contains ops image' c \<longrightarrow> GetTag ops c \<noteq> Latest) \<and>
          (\<exists>b. List.find (Contains ops image') xs = Some b \<and> HasVersion ops b)"
  then obtain b where b: "List.find (Contains ops image') xs = Some b" "HasVersion ops b"
    by blast
  from h have nl: "\<forall>c\<in>set xs. Contains ops image' c \<longrightarrow> GetTag ops c \<noteq> Latest" ..
  from findMostRecentTag_earliest [OF trans negtrans nl b]
  show "\<exists>r pre post. findMostRecentTag ops image' xs = Some r \<and> xs = pre @ r # post \<and>
         (\<forall>c\<in>set pre. Contains ops image' c \<and> HasVersion ops c
            \<longrightarrow> Less ops (TagAsVersion ops c) (TagAsVersion ops r)) \<and>
         (\<forall>c\<in>set post. Contains ops image' c \<and> HasVersion ops c
            \<longrightarrow> \<not> Less ops (TagAsVersion ops r) (TagAsVersion ops c))" .
qed

theorem findMostRecentTag_permutation_witness:
  "map_option (Tag sample_imagename)
     (findMostRecentTag sample_imagename (sample_New ''repo'' ''~1.2.3'')
        [sample_New ''repo'' ''1.2.5'', sample_New ''other'' ''1.2.9'', sample_New ''repo'' ''1.2.7'',
         sample_New ''repo'' ''1.3.0'', sample_New ''repo'' ''1.2.4''])
   = map_option (Tag sample_imagename)
     (findMostRecentTag sample_imagename (sample_New ''repo'' ''~1.2.3'')
        [sample_New ''repo'' ''1.2.7'', sample_New ''repo'' ''1.3.0'', sample_New ''repo'' ''1.2.4'',
         sample_New ''other'' ''1.2.9'', sample_New ''repo'' ''1.2.5'']) \<and>
   map_option (Tag sample_imagename)
     (findMostRecentTag sample_imagename (sample_New ''repo'' ''*'')
        [sample_New ''repo'' ''nightly'', sample_New ''repo'' ''latest'', sample_New ''repo'' ''1.0.0''])
   = map_option (Tag sample_imagename)
     (findMostRecentTag sample_imagename (sample_New ''repo'' ''*'')
        [sample_New ''repo'' ''1.0.0'', sample_New ''repo'' ''latest'', sample_New ''repo'' ''nightly'']) \<and>
   findMostRecentTag sample_imagename (sample_New ''repo'' ''*'')
     [sample_New ''other'' ''9.9.9'', sample_New ''repo'' ''1.2.5'', sample_New ''repo'' ''nightly'',
      sample_New ''repo'' ''1.2.7'', sample_New ''repo'' ''1.2.07'', sample_New ''repo'' ''1.0.0'']
     = Some (sample_New ''repo'' ''1.2.7'') \<and>
   (\<exists>r pre post.
      findMostRecentTag sample_imagename (sample_New ''repo'' ''*'')
        [sample_New ''other'' ''9.9.9'', sample_New ''repo'' ''1.2.5'', sample_New ''repo'' ''nightly'',
         sample_New ''repo'' ''1.2.7'', sample_New ''repo'' ''1.2.07'', sample_New ''repo'' ''1.0.0'']
        = Some r \<and>
      [sample_New ''other'' ''9.9.9'', sample_New ''repo'' ''1.2.5'', sample_New ''repo'' ''nightly'',
       sample_New ''repo'' ''1.2.7'', sample_New ''repo'' ''1.2.07'', sample_New ''repo'' ''1.0.0'']
        = pre @ r # post \<and>
      (\<forall>c\<in>set pre. Contains sample_imagename (sample_New ''repo'' ''*'') c
                     \<and> HasVersion sample_imagename c
         \<longrightarrow> Less sample_imagename (TagAsVersion sample_imagename c)
               (TagAsVersion sample_imagename r)) \<and>
      (\<forall>c\<in>set post. Contains sample_imagename (sample_New ''repo'' ''*'') c
                      \<and> HasVersion sample_imagename c
         \<longrightarrow> \<not> Less sample_imagename (TagAsVersion sample_imagename r)
                 (TagAsVersion sample_imagename c)))"
proof -
  let ?S = sample_imagename
  let ?I = "sample_New ''repo'' ''~1.2.3''"
  let ?W = "sample_New ''repo'' ''*''"
  let ?xs = "[sample_New ''repo'' ''1.2.5'', sample_New ''other'' ''1.2.9'',
              sample_New ''repo'' ''1.2.7'', sample_New ''repo'' ''1.3.0'',
              sample_New ''repo'' ''1.2.4'']"
  let ?ys = "[sample_New ''repo'' ''1.2.7'', sample_New ''repo'' ''1.3.0'',
              sample_New ''repo'' ''1.2.4'', sample_New ''other'' ''1.2.9'',
              sample_New ''repo'' ''1.2.5'']"
  let ?us = "[sample_New ''repo'' ''nightly'', sample_New ''repo'' ''latest'',
              sample_New ''repo'' ''1.0.0'']"
  let ?vs = "[sample_New ''repo'' ''1.0.0'', sample_New ''repo'' ''latest'',
              sample_New ''repo'' ''nightly'']"
  let ?ts = "[sample_New ''other'' ''9.9.9'', sample_New ''repo'' ''1.2.5'',
              sample_New ''repo'' ''nightly'', sample_New ''repo'' ''1.2.7'',
              sample_New ''repo'' ''1.2.07'', sample_New ''repo'' ''1.0.0'']"
  have perm1: "mset ?xs = mset ?ys" by simp
  have perm2: "mset ?us = mset ?vs" by simp
  have perm3: "mset ?ts = mset ?ts" by simp
  have h1: "(\<forall>a\<in>set ?xs. \<forall>b\<in>set ?xs.
             Contains ?S ?I a \<and> GetTag ?S a = Latest \<and>
             Contains ?S ?I b \<and> GetTag ?S b = Latest \<longrightarrow> Tag ?S a = Tag ?S b) \<and>
          ((\<exists>c\<in>set ?xs. Contains ?S ?I c \<and> GetTag ?S c = Latest) \<or>
           (\<forall>a\<in>set ?xs. \<forall>b\<in>set ?xs.
              Contains ?S ?I a \<and> Contains ?S ?I b \<and> Tag ?S a \<noteq> Tag ?S b
              \<longrightarrow> HasVersion ?S a \<and> HasVersion ?S b \<and>
                  (Less ?S (TagAsVersion ?S a) (TagAsVersion ?S b)
                   \<or> Less ?S (TagAsVersion ?S b) (TagAsVersion ?S a))))"
    by code_simp
  have h2: "(\<forall>a\<in>set ?us. \<forall>b\<in>set ?us.
             Contains ?S ?W a \<and> GetTag ?S a = Latest \<and>
             Contains ?S ?W b \<and> GetTag ?S b = Latest \<longrightarrow> Tag ?S a = Tag ?S b) \<and>
          ((\<exists>c\<in>set ?us. Contains ?S ?W c \<and> GetTag ?S c = Latest) \<or>
           (\<forall>a\<in>set ?us. \<forall>b\<in>set ?us.
              Contains ?S ?W a \<and> Contains ?S ?W b \<and> Tag ?S a \<noteq> Tag ?S b
              \<longrightarrow> HasVersion ?S a \<and> HasVersion ?S b \<and>
                  (Less ?S (TagAsVersion ?S a) (TagAsVersion ?S b)
                   \<or> Less ?S (TagAsVersion ?S b) (TagAsVersion ?S a))))"
    by code_simp
  have nl3: "\<forall>c\<in>set ?ts. Contains ?S ?W c \<longrightarrow> GetTag ?S c \<noteq> Latest"
    by code_simp
  have f3: "List.find (Contains ?S ?W) ?ts = Some (sample_New ''repo'' ''1.2.5'')"
    by code_simp
  have v3: "HasVersion ?S (sample_New ''repo'' ''1.2.5'')"
    by code_simp
  have r3: "findMostRecentTag ?S ?W ?ts = Some (sample_New ''repo'' ''1.2.7'')"
    by code_simp
  note t1 = findMostRecentTag_permutation
              [OF sample_irrefl sample_trans sample_negtrans perm1,
               where image' = ?I and read = "Tag ?S"]
  note t2 = findMostRecentTag_permutation
              [OF sample_irrefl sample_trans sample_negtrans perm2,
               where image' = ?W and read = "Tag ?S"]
  note t3 = findMostRecentTag_permutation
              [OF sample_irrefl sample_trans sample_negtrans perm3,
               where image' = ?W and read = "Tag ?S"]
  from t1 h1 have w1: "map_option (Tag ?S) (findMostRecentTag ?S ?I ?xs)
      = map_option (Tag ?S) (findMostRecentTag ?S ?I ?ys)"
    by blast
  from t2 h2 have w2: "map_option (Tag ?S) (findMostRecentTag ?S ?W ?us)
      = map_option (Tag ?S) (findMostRecentTag ?S ?W ?vs)"
    by blast
  from f3 v3 have "\<exists>b. List.find (Contains ?S ?W) ?ts = Some b \<and> HasVersion ?S b"
    by blast
  with t3 nl3 have w3: "\<exists>r pre post. findMostRecentTag ?S ?W ?ts = Some r \<and> ?ts = pre @ r # post \<and>
      (\<forall>c\<in>set pre. Contains ?S ?W c \<and> HasVersion ?S c
         \<longrightarrow> Less ?S (TagAsVersion ?S c) (TagAsVersion ?S r)) \<and>
      (\<forall>c\<in>set post. Contains ?S ?W c \<and> HasVersion ?S c
         \<longrightarrow> \<not> Less ?S (TagAsVersion ?S r) (TagAsVersion ?S c))"
    by blast
  from w1 w2 r3 w3 show ?thesis by (intro conjI)
qed

section \<open>Properties of listImagesInDocker\<close>

lemma listImagesInDocker_tags_find:
  "listImagesInDocker_tags ops image' list tags =
     list @ (case List.find (\<lambda>tag. Contains ops image' (NewFromString ops tag)) tags of
               None \<Rightarrow> []
             | Some tag \<Rightarrow> [NewFromString ops tag])"
  by (induction tags) (simp_all add: Let_def)

lemma listImagesInDocker_images_map_filter:
  "listImagesInDocker_images ops image' list all =
     list @ List.map_filter
       (\<lambda>img. map_option (NewFromString ops)
          (List.find (\<lambda>tag. Contains ops image' (NewFromString ops tag)) (RepoTags img))) all"
proof (induction all arbitrary: list)
  case Nil
  then show ?case by (simp add: List.map_filter_simps)
next
  case (Cons img all)
  show ?case
    by (simp add: Cons.IH listImagesInDocker_tags_find List.map_filter_simps
             split: option.split)
qed

lemma length_map_filter_le: "length (List.map_filter f xs) \<le> length xs"
  by (induction xs) (simp_all add: List.map_filter_simps split: option.split)

text \<open>
  C10. When the daemon lists the images \<open>all\<close>, \<open>listImagesInDocker\<close> returns, image by
  image and in order, the first repository tag of the image that the target contains,
  and nothing for an image with no such tag; further tags of an image are not looked at
  once one is found. So the list has at most one candidate per listed image.
\<close>

theorem listImagesInDocker_first_contained_tag:
  assumes "ListImages cl = Inr all"
  shows "listImagesInDocker ops cl image' =
           ((List.map_filter
               (\<lambda>img. map_option (NewFromString ops)
                  (List.find (\<lambda>tag. Contains ops image' (NewFromString ops tag)) (RepoTags img)))
               all, None), [CallListImages]) \<and>
         length (fst (fst (listImagesInDocker ops cl image'))) \<le> length all"
  using assms
  by (simp add: listImagesInDocker_def listImagesInDocker_images_map_filter length_map_filter_le)

theorem listImagesInDocker_first_contained_tag_witness:
  "listImagesInDocker sample_imagename sample_client (sample_New ''repo'' ''~1.2.3'') =
     ((List.map_filter
         (\<lambda>img. map_option (NewFromString sample_imagename)
            (List.find (\<lambda>tag. Contains sample_imagename (sample_New ''repo'' ''~1.2.3'')
                                (NewFromString sample_imagename tag)) (RepoTags img)))
         [\<lparr>RepoTags = [''other:3.0.0'', ''repo:1.2.3'', ''repo:1.2.4'']\<rparr>,
          \<lparr>RepoTags = []\<rparr>,
          \<lparr>RepoTags = [''repo:1.2.9'', ''repo:1.3.0'']\<rparr>], None), [CallListImages]) \<and>
   length (fst (fst (listImagesInDocker sample_imagename sample_client
                       (sample_New ''repo'' ''~1.2.3'')))) \<le> 3 \<and>
   fst (fst (listImagesInDocker sample_imagename sample_client (sample_New ''repo'' ''~1.2.3'')))
     = [sample_New ''repo'' ''1.2.3'', sample_New ''repo'' ''1.2.9'']"
proof -
  have l: "ListImages sample_client =
      Inr [\<lparr>RepoTags = [''other:3.0.0'', ''repo:1.2.3'', ''repo:1.2.4'']\<rparr>,
           \<lparr>RepoTags = []\<rparr>,
           \<lparr>RepoTags = [''repo:1.2.9'', ''repo:1.3.0'']\<rparr>]"
    by (simp add: sample_client_def)
  have e: "fst (fst (listImagesInDocker sample_imagename sample_client
                       (sample_New ''repo'' ''~1.2.3'')))
     = [sample_New ''repo'' ''1.2.3'', sample_New ''repo'' ''1.2.9'']"
    by code_simp
  from listImagesInDocker_first_contained_tag [OF l, of sample_imagename "sample_New ''repo'' ''~1.2.3''"] e
  show ?thesis by simp
qed

section \<open>Properties of PullDockerImage\<close>

subsection \<open>The two blocks\<close>

lemma PullDockerImage_pull_calls:
  "snd (PullDockerImage_pull ops cl hub image' auth tag) =
     [CallPullImage \<lparr>pull_Repository = NameWithRegistry ops image',
                     pull_Registry = Registry ops image',
                     pull_Tag = tag, pull_RawJSONStream = True\<rparr> auth,
      CallDisplayJSONMessagesStream]"
  by (simp add: PullDockerImage_pull_def Let_def split: option.split)

lemma PullDockerImage_pull_result:
  "fst (PullDockerImage_pull ops cl hub image' auth tag) = Inr r \<Longrightarrow>
     r = New ops (NameWithRegistry ops image') tag"
  by (simp add: PullDockerImage_pull_def Let_def split: option.splits)

lemma PullDockerImage_tag_exact:
  "\<not> HasVersionRange ops image' \<Longrightarrow> \<not> All' ops image' \<Longrightarrow>
     PullDockerImage_tag ops cl hub image' force = (Inr (Tag ops image'), [])"
  by (simp add: PullDockerImage_tag_def)

lemma listImagesInDocker_calls: "snd (listImagesInDocker ops cl image') = [CallListImages]"
  by (simp add: listImagesInDocker_def split: sum.split)

lemma PullDockerImage_tag_remote:
  assumes "HasVersionRange ops image' \<or> All' ops image'"
      and "fst (fst (listImagesInDocker ops cl image')) = [] \<or> force"
  shows "PullDockerImage_tag ops cl hub image' force =
     (case HubList hub image' of
        (list, Some e) \<Rightarrow> (Inl e, [CallListImages, CallHubList image'])
      | (list, None) \<Rightarrow>
          (Inr (case findMostRecentTag ops image' list of
                  Some recent \<Rightarrow> Tag ops recent
                | None \<Rightarrow> Tag ops image'),
           [CallListImages, CallHubList image']))"
proof -
  obtain l e c where d: "listImagesInDocker ops cl image' = ((l, e), c)"
    by (metis surj_pair)
  with listImagesInDocker_calls [of ops cl image'] have c: "c = [CallListImages]" by simp
  from d assms(2) have "length l = 0 \<or> force" by simp
  with assms(1) d c show ?thesis
    by (simp add: PullDockerImage_tag_def listImagesInRegistry_def
             split: prod.split option.split)
qed

lemma PullDockerImage_tag_local:
  assumes "HasVersionRange ops image' \<or> All' ops image'"
      and "fst (fst (listImagesInDocker ops cl image')) \<noteq> []" and "\<not> force"
  shows "PullDockerImage_tag ops cl hub image' force =
     (case fst (listImagesInDocker ops cl image') of
        (list, Some e) \<Rightarrow> (Inl e, [CallListImages])
      | (list, None) \<Rightarrow>
          (Inr (case findMostRecentTag ops image' list of
                  Some recent \<Rightarrow> Tag ops recent
                | None \<Rightarrow> Tag ops image'),
           [CallListImages]))"
proof -
  obtain l e c where d: "listImagesInDocker ops cl image' = ((l, e), c)"
    by (metis surj_pair)
  with listImagesInDocker_calls [of ops cl image'] have c: "c = [CallListImages]" by simp
  from d assms(2) have "length l \<noteq> 0" by simp
  with assms(1) assms(3) d c show ?thesis
    by (simp add: PullDockerImage_tag_def split: prod.split option.split)
qed

lemma PullDockerImage_tag_calls:
  "snd (PullDockerImage_tag ops cl hub image' force) = [] \<or>
   snd (PullDockerImage_tag ops cl hub image' force) = [CallListImages] \<or>
   snd (PullDockerImage_tag ops cl hub image' force) = [CallListImages, CallHubList image']"
proof (cases "HasVersionRange ops image' \<or> All' ops image'")
  case False
  then show ?thesis by (simp add: PullDockerImage_tag_exact)
next
  case ranged: True
  show ?thesis
  proof (cases "fst (fst (listImagesInDocker ops cl image')) = [] \<or> force")
    case True
    from PullDockerImage_tag_remote [OF ranged True, of hub] show ?thesis
      by (auto split: prod.splits option.splits)
  next
    case False
    then have f: "fst (fst (listImagesInDocker ops cl image')) \<noteq> []" "\<not> force" by simp_all
    from PullDockerImage_tag_local [OF ranged f, of hub] show ?thesis
      by (auto split: prod.splits option.splits)
  qed
qed

lemma findMostRecentTag_none_contained:
  "\<forall>c\<in>set list. \<not> Contains ops image' c \<Longrightarrow> findMostRecentTag ops image' list = None"
  by (simp add: findMostRecentTag_def loop_none_contained)

subsection \<open>An exact tag\<close>

text \<open>
  C5. For an image that has neither a version range nor the wildcard, \<open>PullDockerImage\<close>
  pulls the image's own tag: its only calls are \<open>PullImage\<close> with \<open>Tag = image.Tag\<close> and
  the display of the stream, neither \<open>ListImages\<close> nor the registry's \<open>List\<close> is
  called, and a successful result is built from the image's name and its own tag.
\<close>

theorem PullDockerImage_exact_tag:
  assumes "\<not> HasVersionRange ops image'" and "\<not> All' ops image'"
  shows "PullDockerImage ops cl hub image' auth force
           = PullDockerImage_pull ops cl hub image' auth (Tag ops image') \<and>
         snd (PullDockerImage ops cl hub image' auth force) =
           [CallPullImage \<lparr>pull_Repository = NameWithRegistry ops image',
                           pull_Registry = Registry ops image',
                           pull_Tag = Tag ops image', pull_RawJSONStream = True\<rparr> auth,
            CallDisplayJSONMessagesStream] \<and>
         CallListImages \<notin> set (snd (PullDockerImage ops cl hub image' auth force)) \<and>
         (\<forall>i. CallHubList i \<notin> set (snd (PullDockerImage ops cl hub image' auth force))) \<and>
         (\<forall>r. fst (PullDockerImage ops cl hub image' auth force) = Inr r
             \<longrightarrow> r = New ops (NameWithRegistry ops image') (Tag ops image'))"
proof -
  have 1: "PullDockerImage ops cl hub image' auth force
           = PullDockerImage_pull ops cl hub image' auth (Tag ops image')"
    by (simp add: PullDockerImage_def PullDockerImage_tag_exact [OF assms] split: prod.split)
  show ?thesis
    unfolding 1 using PullDockerImage_pull_result [of ops cl hub image' auth "Tag ops image'"]
    by (simp add: PullDockerImage_pull_calls)
qed

theorem PullDockerImage_exact_tag_witness:
  "PullDockerImage sample_imagename sample_client sample_services
      (sample_New ''repo'' ''1.2.3'') sample_auth True
     = PullDockerImage_pull sample_imagename sample_client sample_services
         (sample_New ''repo'' ''1.2.3'') sample_auth ''1.2.3'' \<and>
   snd (PullDockerImage sample_imagename sample_client sample_services
          (sample_New ''repo'' ''1.2.3'') sample_auth True) =
     [CallPullImage \<lparr>pull_Repository = ''repo'', pull_Registry = [],
                     pull_Tag = ''1.2.3'', pull_RawJSONStream = True\<rparr> sample_auth,
      CallDisplayJSONMessagesStream] \<and>
   fst (PullDockerImage sample_imagename sample_client sample_services
          (sample_New ''repo'' ''1.2.3'') sample_auth True) = Inr (sample_New ''repo'' ''1.2.3'')"
proof -
  have 1: "\<not> HasVersionRange sample_imagename (sample_New ''repo'' ''1.2.3'')"
    by code_simp
  have 2: "\<not> All' sample_imagename (sample_New ''repo'' ''1.2.3'')"
    by code_simp
  have 3: "Tag sample_imagename (sample_New ''repo'' ''1.2.3'') = ''1.2.3''"
    by code_simp
  have 4: "NameWithRegistry sample_imagename (sample_New ''repo'' ''1.2.3'') = ''repo''"
    by code_simp
  have 5: "Registry sample_imagename (sample_New ''repo'' ''1.2.3'') = []"
    by code_simp
  have 6: "fst (PullDockerImage sample_imagename sample_client sample_services
          (sample_New ''repo'' ''1.2.3'') sample_auth True) = Inr (sample_New ''repo'' ''1.2.3'')"
    by code_simp
  from PullDockerImage_exact_tag
         [OF 1 2, of sample_client sample_services sample_auth True, unfolded 3 4 5] 6
  show ?thesis by blast
qed

subsection \<open>The remote list replaces the local one\<close>

text \<open>
  C6. For a ranged or wildcard image, when the local list is empty or \<open>force\<close> is set,
  the outcome is determined by the registry's answer alone: its error is returned, or
  \<open>findMostRecentTag\<close> selects over the registry's list and that tag is pulled. The
  local list does not occur in the result.
\<close>

theorem PullDockerImage_remote_replaces_local:
  assumes "HasVersionRange ops image' \<or> All' ops image'"
      and "fst (fst (listImagesInDocker ops cl image')) = [] \<or> force"
  shows "PullDockerImage ops cl hub image' auth force =
     (case HubList hub image' of
        (list, Some e) \<Rightarrow> (Inl e, [CallListImages, CallHubList image'])
      | (list, None) \<Rightarrow>
          (fst (PullDockerImage_pull ops cl hub image' auth
                  (case findMostRecentTag ops image' list of
                     Some recent \<Rightarrow> Tag ops recent
                   | None \<Rightarrow> Tag ops image')),
           [CallListImages, CallHubList image'] @
           snd (PullDockerImage_pull ops cl hub image' auth
                  (case findMostRecentTag ops image' list of
                     Some recent \<Rightarrow> Tag ops recent
                   | None \<Rightarrow> Tag ops image'))))"
  by (simp add: PullDockerImage_def PullDockerImage_tag_remote [OF assms]
           split: prod.split option.split)

theorem PullDockerImage_remote_replaces_local_witness:
  "fst (fst (listImagesInDocker sample_imagename sample_client (sample_New ''repo'' ''~1.2.3'')))
     = [sample_New ''repo'' ''1.2.3'', sample_New ''repo'' ''1.2.9''] \<and>
   HubList sample_services (sample_New ''repo'' ''~1.2.3'')
     = ([sample_New ''repo'' ''1.2.5'', sample_New ''repo'' ''1.3.0'',
         sample_New ''repo'' ''1.2.7''], None) \<and>
   PullDockerImage sample_imagename sample_client sample_services
      (sample_New ''repo'' ''~1.2.3'') sample_auth True
     = (Inr (sample_New ''repo'' ''1.2.7''),
        [CallListImages, CallHubList (sample_New ''repo'' ''~1.2.3''),
         CallPullImage \<lparr>pull_Repository = ''repo'', pull_Registry = [],
                         pull_Tag = ''1.2.7'', pull_RawJSONStream = True\<rparr> sample_auth,
         CallDisplayJSONMessagesStream])"
proof -
  let ?I = "sample_New ''repo'' ''~1.2.3''"
  have 1: "HasVersionRange sample_imagename ?I \<or> All' sample_imagename ?I"
    by code_simp
  have 2: "fst (fst (listImagesInDocker sample_imagename sample_client ?I)) = [] \<or> True"
    by simp
  have 3: "fst (fst (listImagesInDocker sample_imagename sample_client ?I))
     = [sample_New ''repo'' ''1.2.3'', sample_New ''repo'' ''1.2.9'']"
    by code_simp
  have 4: "HubList sample_services ?I
     = ([sample_New ''repo'' ''1.2.5'', sample_New ''repo'' ''1.3.0'',
         sample_New ''repo'' ''1.2.7''], None)"
    by code_simp
  have 5: "findMostRecentTag sample_imagename ?I
        [sample_New ''repo'' ''1.2.5'', sample_New ''repo'' ''1.3.0'', sample_New ''repo'' ''1.2.7'']
      = Some (sample_New ''repo'' ''1.2.7'')"
    by code_simp
  have 6: "Tag sample_imagename (sample_New ''repo'' ''1.2.7'') = ''1.2.7''"
    by code_simp
  have 7: "PullDockerImage_pull sample_imagename sample_client sample_services ?I sample_auth ''1.2.7''
     = (Inr (sample_New ''repo'' ''1.2.7''),
        [CallPullImage \<lparr>pull_Repository = ''repo'', pull_Registry = [],
                         pull_Tag = ''1.2.7'', pull_RawJSONStream = True\<rparr> sample_auth,
         CallDisplayJSONMessagesStream])"
    by code_simp
  from PullDockerImage_remote_replaces_local [OF 1 2, of sample_services sample_auth] 3
  show ?thesis by (simp add: 4 5 6 7)
qed

subsection \<open>A failure of the local listing\<close>

text \<open>
  When \<open>ListImages\<close> fails, the list that \<open>listImagesInDocker\<close> returns is nil, so
  for a ranged or wildcard image the registry is always consulted and the error of the
  local listing never leaves lines 136-152.
\<close>

lemma PullDockerImage_tag_local_error:
  assumes "HasVersionRange ops image' \<or> All' ops image'"
      and "ListImages cl = Inl e"
  shows "PullDockerImage_tag ops cl hub image' force =
     (case HubList hub image' of
        (list, Some e') \<Rightarrow> (Inl e', [CallListImages, CallHubList image'])
      | (list, None) \<Rightarrow>
          (Inr (case findMostRecentTag ops image' list of
                  Some recent \<Rightarrow> Tag ops recent
                | None \<Rightarrow> Tag ops image'),
           [CallListImages, CallHubList image']))"
proof -
  from assms(2) have "fst (fst (listImagesInDocker ops cl image')) = [] \<or> force"
    by (simp add: listImagesInDocker_def)
  from PullDockerImage_tag_remote [OF assms(1) this] show ?thesis .
qed

text \<open>
  C2. The claim is that an error of the local listing is returned and the registry is not
  consulted. \<open>listImagesInDocker\<close> returns a nil list with its error, so line 141 finds
  \<open>len(list) == 0\<close> and line 142 overwrites \<open>err\<close> with the registry's before line 145
  looks at it. With a daemon whose \<open>ListImages\<close> fails, a range \<open>repo:~1.2.3\<close> and
  \<open>force = false\<close>, the registry is consulted and the call succeeds with \<open>repo:1.2.7\<close>.
\<close>

theorem PullDockerImage_local_failure_falls_through:
  "PullDockerImage sample_imagename
      (sample_client\<lparr>ListImages := Inl (NewError ''cannot connect to the Docker daemon'')\<rparr>)
      sample_services (sample_New ''repo'' ''~1.2.3'') sample_auth False
     = (Inr (sample_New ''repo'' ''1.2.7''),
        [CallListImages, CallHubList (sample_New ''repo'' ''~1.2.3''),
         CallPullImage \<lparr>pull_Repository = ''repo'', pull_Registry = [],
                         pull_Tag = ''1.2.7'', pull_RawJSONStream = True\<rparr> sample_auth,
         CallDisplayJSONMessagesStream])"
  by code_simp

subsection \<open>No applicable candidate\<close>

text \<open>
  C7, as stated, fails. With the range \<open>repo:~4.0.0\<close>, no local candidate and a
  registry that lists
  \<open>1.2.5\<close>, \<open>1.3.0\<close> and \<open>1.2.7\<close>, nothing is selected; the pull goes on with the tag
  \<open>~4.0.0\<close> and, when the daemon accepts it, the caller gets the range back as the
  resolved reference.
\<close>

theorem PullDockerImage_no_candidate_counterexample:
  "HasVersionRange sample_imagename (sample_New ''repo'' ''~4.0.0'') \<and>
   fst (fst (listImagesInDocker sample_imagename sample_client (sample_New ''repo'' ''~4.0.0''))) = [] \<and>
   findMostRecentTag sample_imagename (sample_New ''repo'' ''~4.0.0'')
     (fst (HubList sample_services (sample_New ''repo'' ''~4.0.0''))) = None \<and>
   fst (PullDockerImage sample_imagename sample_client sample_services
          (sample_New ''repo'' ''~4.0.0'') sample_auth False)
     = Inr (sample_New ''repo'' ''~4.0.0'')"
  by code_simp

text \<open>
  C7, amended. For a ranged or wildcard image whose chosen candidate list (the registry's
  when the local one is empty or \<open>force\<close> is set, the local one otherwise) was obtained
  without error and holds no candidate the image contains, \<open>PullDockerImage\<close> keeps the
  image's own tag and pulls it: the outcome is that of pulling \<open>image.Tag\<close>, so the
  caller gets an error only when the stream or the pull fails, and otherwise the reference
  built from the image's name and its own, unresolved tag.
\<close>

theorem PullDockerImage_no_candidate:
  assumes ranged: "HasVersionRange ops image' \<or> All' ops image'"
      and chosen: "(if fst (fst (listImagesInDocker ops cl image')) = [] \<or> force
                    then HubList hub image'
                    else fst (listImagesInDocker ops cl image')) = (list, None)"
      and none: "\<forall>c\<in>set list. \<not> Contains ops image' c"
  shows "fst (PullDockerImage ops cl hub image' auth force)
           = fst (PullDockerImage_pull ops cl hub image' auth (Tag ops image')) \<and>
         CallPullImage \<lparr>pull_Repository = NameWithRegistry ops image',
                        pull_Registry = Registry ops image',
                        pull_Tag = Tag ops image', pull_RawJSONStream = True\<rparr> auth
           \<in> set (snd (PullDockerImage ops cl hub image' auth force)) \<and>
         (\<forall>r. fst (PullDockerImage ops cl hub image' auth force) = Inr r
             \<longrightarrow> r = New ops (NameWithRegistry ops image') (Tag ops image'))"
proof -
  from none have n: "findMostRecentTag ops image' list = None"
    by (rule findMostRecentTag_none_contained)
  have "\<exists>calls. PullDockerImage_tag ops cl hub image' force = (Inr (Tag ops image'), calls)"
  proof (cases "fst (fst (listImagesInDocker ops cl image')) = [] \<or> force")
    case True
    with chosen have "HubList hub image' = (list, None)" by simp
    with PullDockerImage_tag_remote [OF ranged True, of hub] n show ?thesis by simp
  next
    case False
    then have f: "fst (fst (listImagesInDocker ops cl image')) \<noteq> []" "\<not> force" by simp_all
    from False chosen have "fst (listImagesInDocker ops cl image') = (list, None)" by simp
    with PullDockerImage_tag_local [OF ranged f, of hub] n show ?thesis by simp
  qed
  then obtain calls where
    t: "PullDockerImage_tag ops cl hub image' force = (Inr (Tag ops image'), calls)" ..
  have p: "PullDockerImage ops cl hub image' auth force
      = (fst (PullDockerImage_pull ops cl hub image' auth (Tag ops image')),
         calls @ snd (PullDockerImage_pull ops cl hub image' auth (Tag ops image')))"
    by (simp add: PullDockerImage_def t split: prod.split)
  show ?thesis
    unfolding p using PullDockerImage_pull_result [of ops cl hub image' auth "Tag ops image'"]
    by (simp add: PullDockerImage_pull_calls)
qed

theorem PullDockerImage_no_candidate_witness:
  "fst (PullDockerImage sample_imagename sample_client sample_services
          (sample_New ''repo'' ''~4.0.0'') sample_auth False)
     = fst (PullDockerImage_pull sample_imagename sample_client sample_services
          (sample_New ''repo'' ''~4.0.0'') sample_auth ''~4.0.0'') \<and>
   CallPullImage \<lparr>pull_Repository = ''repo'', pull_Registry = [],
                  pull_Tag = ''~4.0.0'', pull_RawJSONStream = True\<rparr> sample_auth
     \<in> set (snd (PullDockerImage sample_imagename sample_client sample_services
          (sample_New ''repo'' ''~4.0.0'') sample_auth False)) \<and>
   fst (PullDockerImage sample_imagename sample_client sample_services
          (sample_New ''repo'' ''~4.0.0'') sample_auth False)
     = Inr (sample_New ''repo'' ''~4.0.0'')"
proof -
  let ?I = "sample_New ''repo'' ''~4.0.0''"
  let ?L = "[sample_New ''repo'' ''1.2.5'', sample_New ''repo'' ''1.3.0'', sample_New ''repo'' ''1.2.7'']"
  have 1: "HasVersionRange sample_imagename ?I \<or> All' sample_imagename ?I"
    by code_simp
  have 2: "(if fst (fst (listImagesInDocker sample_imagename sample_client ?I)) = [] \<or> False
            then HubList sample_services ?I
            else fst (listImagesInDocker sample_imagename sample_client ?I)) = (?L, None)"
    by code_simp
  have 3: "\<forall>c\<in>set ?L. \<not> Contains sample_imagename ?I c"
    by code_simp
  have 4: "Tag sample_imagename ?I = ''~4.0.0''" by code_simp
  have 5: "NameWithRegistry sample_imagename ?I = ''repo''" by code_simp
  have 6: "Registry sample_imagename ?I = []" by code_simp
  have 7: "fst (PullDockerImage sample_imagename sample_client sample_services ?I sample_auth False)
     = Inr ?I"
    by code_simp
  from PullDockerImage_no_candidate [OF 1 2 3, of sample_auth, unfolded 4 5 6] 7
  show ?thesis by blast
qed

subsection \<open>The result of a successful pull\<close>

text \<open>Lines 136-152 as one case distinction: which list is selected over, and when.\<close>

lemma PullDockerImage_tag_resolved:
  "PullDockerImage_tag ops cl hub image' force =
     (if HasVersionRange ops image' \<or> All' ops image' then
        (if fst (fst (listImagesInDocker ops cl image')) = [] \<or> force then
           (case snd (HubList hub image') of
              Some e \<Rightarrow> (Inl e, [CallListImages, CallHubList image'])
            | None \<Rightarrow>
                (Inr (case findMostRecentTag ops image' (fst (HubList hub image')) of
                        Some recent \<Rightarrow> Tag ops recent
                      | None \<Rightarrow> Tag ops image'),
                 [CallListImages, CallHubList image']))
         else
           (case snd (fst (listImagesInDocker ops cl image')) of
              Some e \<Rightarrow> (Inl e, [CallListImages])
            | None \<Rightarrow>
                (Inr (case findMostRecentTag ops image'
                             (fst (fst (listImagesInDocker ops cl image'))) of
                        Some recent \<Rightarrow> Tag ops recent
                      | None \<Rightarrow> Tag ops image'),
                 [CallListImages])))
      else (Inr (Tag ops image'), []))"
proof (cases "HasVersionRange ops image' \<or> All' ops image'")
  case False
  then show ?thesis by (simp add: PullDockerImage_tag_exact)
next
  case ranged: True
  show ?thesis
  proof (cases "fst (fst (listImagesInDocker ops cl image')) = [] \<or> force")
    case True
    from PullDockerImage_tag_remote [OF ranged True, of hub] ranged True show ?thesis
      by (simp add: case_prod_beta split: option.split)
  next
    case False
    then have f: "fst (fst (listImagesInDocker ops cl image')) \<noteq> []" "\<not> force" by simp_all
    from PullDockerImage_tag_local [OF ranged f, of hub] ranged False show ?thesis
      by (simp add: case_prod_beta split: option.split)
  qed
qed

text \<open>
  C8, as stated, fails. With the wildcard \<open>repo:*\<close>, \<open>force\<close> set and a registry
  that lists nothing, a successful pull returns \<open>New("repo", "*")\<close>: the same value as the
  input reference, with the wildcard as its tag.
\<close>

theorem PullDockerImage_result_counterexample:
  "All' sample_imagename (sample_New ''repo'' ''*'') \<and>
   Tag sample_imagename (sample_New ''repo'' ''*'') = ''*'' \<and>
   fst (PullDockerImage sample_imagename sample_client
          (sample_services\<lparr>HubList := (\<lambda>a. ([], None))\<rparr>)
          (sample_New ''repo'' ''*'') sample_auth True)
     = Inr (sample_New ''repo'' ''*'')"
  by code_simp

text \<open>
  C8, amended. Whenever \<open>PullDockerImage\<close> succeeds, its result is
  \<open>imagename.New(image.NameWithRegistry(), tag)\<close> and \<open>tag\<close> is the tag that was
  pulled, where: for an image with neither range nor wildcard \<open>tag\<close> is the image's own
  tag and no listing is called; otherwise the list is the registry's when the local list
  is empty or \<open>force\<close> is set, and the local list if not, and \<open>tag\<close> is the \<open>Tag\<close> of
  the candidate that \<open>findMostRecentTag\<close> selects from that list, or the image's own
  tag when it selects none.
\<close>

theorem PullDockerImage_result:
  assumes "fst (PullDockerImage ops cl hub image' auth force) = Inr r"
  shows "let ranged = (HasVersionRange ops image' \<or> All' ops image');
             local = fst (fst (listImagesInDocker ops cl image'));
             remote = (local = [] \<or> force);
             list = (if remote then fst (HubList hub image') else local);
             tag = (if ranged
                    then (case findMostRecentTag ops image' list of
                            Some recent \<Rightarrow> Tag ops recent
                          | None \<Rightarrow> Tag ops image')
                    else Tag ops image')
         in r = New ops (NameWithRegistry ops image') tag \<and>
            snd (PullDockerImage ops cl hub image' auth force) =
              (if ranged then (if remote then [CallListImages, CallHubList image']
                               else [CallListImages])
               else []) @
              [CallPullImage \<lparr>pull_Repository = NameWithRegistry ops image',
                              pull_Registry = Registry ops image',
                              pull_Tag = tag, pull_RawJSONStream = True\<rparr> auth,
               CallDisplayJSONMessagesStream]"
proof -
  obtain res calls where t: "PullDockerImage_tag ops cl hub image' force = (res, calls)"
    by (metis surj_pair)
  with assms obtain tag where tag: "res = Inr tag"
    by (cases res) (auto simp: PullDockerImage_def)
  from t tag assms have p: "fst (PullDockerImage_pull ops cl hub image' auth tag) = Inr r"
    by (simp add: PullDockerImage_def case_prod_beta)
  then have r: "r = New ops (NameWithRegistry ops image') tag"
    by (rule PullDockerImage_pull_result)
  from t tag have c: "snd (PullDockerImage ops cl hub image' auth force) =
      calls @ [CallPullImage \<lparr>pull_Repository = NameWithRegistry ops image',
                              pull_Registry = Registry ops image',
                              pull_Tag = tag, pull_RawJSONStream = True\<rparr> auth,
               CallDisplayJSONMessagesStream]"
    by (simp add: PullDockerImage_def case_prod_beta PullDockerImage_pull_calls)
  from t tag have "PullDockerImage_tag ops cl hub image' force = (Inr tag, calls)" by simp
  then have
    "tag = (if HasVersionRange ops image' \<or> All' ops image'
            then (case findMostRecentTag ops image'
                         (if fst (fst (listImagesInDocker ops cl image')) = [] \<or> force
                          then fst (HubList hub image')
                          else fst (fst (listImagesInDocker ops cl image'))) of
                    Some recent \<Rightarrow> Tag ops recent
                  | None \<Rightarrow> Tag ops image')
            else Tag ops image') \<and>
     calls = (if HasVersionRange ops image' \<or> All' ops image'
              then (if fst (fst (listImagesInDocker ops cl image')) = [] \<or> force
                    then [CallListImages, CallHubList image'] else [CallListImages])
              else [])"
    unfolding PullDockerImage_tag_resolved
    by (auto split: if_splits option.splits)
  with r c show ?thesis
    by (simp add: Let_def)
qed

theorem PullDockerImage_result_witness:
  "sample_New ''repo'' ''1.2.9'' = New sample_imagename ''repo'' ''1.2.9'' \<and>
   fst (PullDockerImage sample_imagename sample_client sample_services
          (sample_New ''repo'' ''~1.2.3'') sample_auth False) = Inr (sample_New ''repo'' ''1.2.9'') \<and>
   snd (PullDockerImage sample_imagename sample_client sample_services
          (sample_New ''repo'' ''~1.2.3'') sample_auth False) =
     [CallListImages,
      CallPullImage \<lparr>pull_Repository = ''repo'', pull_Registry = [],
                      pull_Tag = ''1.2.9'', pull_RawJSONStream = True\<rparr> sample_auth,
      CallDisplayJSONMessagesStream]"
proof -
  let ?I = "sample_New ''repo'' ''~1.2.3''"
  have 1: "fst (PullDockerImage sample_imagename sample_client sample_services ?I sample_auth False)
             = Inr (sample_New ''repo'' ''1.2.9'')"
    by code_simp
  have 2: "HasVersionRange sample_imagename ?I \<or> All' sample_imagename ?I"
    by code_simp
  have 3: "fst (fst (listImagesInDocker sample_imagename sample_client ?I))
             = [sample_New ''repo'' ''1.2.3'', sample_New ''repo'' ''1.2.9'']"
    by code_simp
  have 4: "findMostRecentTag sample_imagename ?I
             [sample_New ''repo'' ''1.2.3'', sample_New ''repo'' ''1.2.9'']
             = Some (sample_New ''repo'' ''1.2.9'')"
    by code_simp
  have 5: "Tag sample_imagename (sample_New ''repo'' ''1.2.9'') = ''1.2.9''"
    by code_simp
  have 6: "NameWithRegistry sample_imagename ?I = ''repo''"
    by code_simp
  have 7: "Registry sample_imagename ?I = []"
    by code_simp
  have 8: "[sample_New ''repo'' ''1.2.3'', sample_New ''repo'' ''1.2.9''] \<noteq> []"
    by simp
  from PullDockerImage_result [OF 1, unfolded Let_def 3] 2 8
  have "sample_New ''repo'' ''1.2.9'' = New sample_imagename ''repo'' ''1.2.9'' \<and>
        snd (PullDockerImage sample_imagename sample_client sample_services ?I sample_auth False) =
          [CallListImages,
           CallPullImage \<lparr>pull_Repository = ''repo'', pull_Registry = [],
                           pull_Tag = ''1.2.9'', pull_RawJSONStream = True\<rparr> sample_auth,
           CallDisplayJSONMessagesStream]"
    by (simp add: 4 5 6 7)
  with 1 show ?thesis by blast
qed

section \<open>Properties of GetBridgeIp\<close>

lemma PullDockerImage_no_container_calls:
  "CallCreateContainer opts \<notin> set (snd (PullDockerImage ops cl hub image' auth force)) \<and>
   CallRemoveContainer ropts \<notin> set (snd (PullDockerImage ops cl hub image' auth force))"
proof -
  obtain res calls where t: "PullDockerImage_tag ops cl hub image' force = (res, calls)"
    by (metis surj_pair)
  with PullDockerImage_tag_calls [of ops cl hub image' force]
  have c: "calls = [] \<or> calls = [CallListImages] \<or> calls = [CallListImages, CallHubList image']"
    by simp
  show ?thesis
  proof (cases res)
    case (Inl e)
    with t c show ?thesis by (auto simp: PullDockerImage_def)
  next
    case (Inr tag)
    with t have "snd (PullDockerImage ops cl hub image' auth force)
        = calls @ snd (PullDockerImage_pull ops cl hub image' auth tag)"
      by (simp add: PullDockerImage_def split: prod.split)
    with c show ?thesis by (auto simp: PullDockerImage_pull_calls)
  qed
qed

lemma GetBridgeIp_probe_calls:
  "CallCreateContainer opts \<notin> set (snd (GetBridgeIp_probe cl container :: 'i bridge_run)) \<and>
   CallRemoveContainer ropts \<notin> set (snd (GetBridgeIp_probe cl container :: 'i bridge_run))"
  by (simp add: GetBridgeIp_probe_def split: option.split sum.split)

lemma GetBridgeIp_probe_error:
  "snd (fst (GetBridgeIp_probe cl container :: 'i bridge_run)) =
     (case StartContainer cl (ID container) of
        Some err \<Rightarrow>
          Some (NewError (''Failed to start dummy network container ''
                  @ take 12 (ID container) @ '', error: '' @ Error err))
      | None \<Rightarrow>
          (case InspectContainer cl (ID container) of
             Inl err \<Rightarrow>
               Some (NewError (''Failed to inspect dummy network container ''
                       @ take 12 (ID container) @ '', error: '' @ Error err))
           | Inr inspect \<Rightarrow> None))"
  by (simp add: GetBridgeIp_probe_def split: option.split sum.split)

lemma GetBridgeIp_deferred_result:
  "(GetBridgeIp_deferred cl container (ip, err) :: 'i bridge_run) =
     ((ip, case err of Some e \<Rightarrow> Some e
                     | None \<Rightarrow> RemoveContainer cl \<lparr>remove_ID = ID container, remove_Force = True,
                                                    remove_RemoveVolumes = True\<rparr>),
      [CallRemoveContainer \<lparr>remove_ID = ID container, remove_Force = True,
                            remove_RemoveVolumes = True\<rparr>])"
  by (simp add: GetBridgeIp_deferred_def Let_def split: option.split)

lemma GetBridgeIp_container_created:
  assumes "CallCreateContainer opts \<in> set (snd (GetBridgeIp_container cl :: 'i bridge_run))"
      and "CreateContainer cl opts = Inr container"
  shows "\<exists>calls. snd (GetBridgeIp_container cl :: 'i bridge_run) =
             CallCreateContainer opts # calls @
               [CallRemoveContainer \<lparr>remove_ID = ID container, remove_Force = True,
                                      remove_RemoveVolumes = True\<rparr>] \<and>
           (\<forall>ropts. CallRemoveContainer ropts \<notin> set calls) \<and>
           snd (fst (GetBridgeIp_container cl :: 'i bridge_run)) =
             (case snd (fst (GetBridgeIp_probe cl container :: 'i bridge_run)) of
                Some e \<Rightarrow> Some e
              | None \<Rightarrow> RemoveContainer cl \<lparr>remove_ID = ID container, remove_Force = True,
                                             remove_RemoveVolumes = True\<rparr>)"
proof -
  let ?o = "\<lparr>create_Image = emptyImageName,
             create_Cmd = [''/bin/sh'', ''-c'', ''while true; do sleep 1; done'']\<rparr>"
  have "opts = ?o"
  proof (cases "CreateContainer cl ?o")
    case (Inl e)
    with assms(1) show ?thesis by (simp add: GetBridgeIp_container_def)
  next
    case (Inr x)
    with assms(1) GetBridgeIp_probe_calls [of opts cl x, where 'i = 'i] show ?thesis
      by (cases "GetBridgeIp_probe cl x :: 'i bridge_run")
         (auto simp: GetBridgeIp_container_def GetBridgeIp_deferred_result)
  qed
  with assms(2) have c: "CreateContainer cl ?o = Inr container" by simp
  obtain ip err calls where p: "(GetBridgeIp_probe cl container :: 'i bridge_run) = ((ip, err), calls)"
    by (metis surj_pair)
  with GetBridgeIp_probe_calls [of _ cl container, where 'i = 'i] have
    n: "\<forall>ropts. CallRemoveContainer ropts \<notin> set calls"
    by simp
  have "(GetBridgeIp_container cl :: 'i bridge_run) =
      ((ip, case err of Some e \<Rightarrow> Some e
                     | None \<Rightarrow> RemoveContainer cl \<lparr>remove_ID = ID container, remove_Force = True,
                                                    remove_RemoveVolumes = True\<rparr>),
       CallCreateContainer ?o # calls @
         [CallRemoveContainer \<lparr>remove_ID = ID container, remove_Force = True,
                                remove_RemoveVolumes = True\<rparr>])"
    by (simp add: GetBridgeIp_container_def c p GetBridgeIp_deferred_result)
  with n p \<open>opts = ?o\<close> show ?thesis by simp
qed

text \<open>
  C9. If a run of \<open>GetBridgeIp\<close> calls \<open>CreateContainer\<close> and the call returns a
  container, then the last call of the run is \<open>RemoveContainer\<close> of that container
  (forced, with its volumes), it is the only removal, and the returned error is the
  wrapped error of \<open>StartContainer\<close> if that failed, else the wrapped error of
  \<open>InspectContainer\<close> if that failed, and only otherwise what \<open>RemoveContainer\<close>
  returned.
\<close>

theorem GetBridgeIp_removes_container:
  fixes ops :: "('i, 'v) imagename"
  assumes created: "CallCreateContainer opts \<in> set (snd (GetBridgeIp ops cl hub))"
      and container: "CreateContainer cl opts = Inr container"
  shows "\<exists>calls. snd (GetBridgeIp ops cl hub) =
             calls @ [CallRemoveContainer \<lparr>remove_ID = ID container, remove_Force = True,
                                            remove_RemoveVolumes = True\<rparr>] \<and>
           (\<forall>ropts. CallRemoveContainer ropts \<notin> set calls) \<and>
           snd (fst (GetBridgeIp ops cl hub)) =
             (case StartContainer cl (ID container) of
                Some err \<Rightarrow>
                  Some (NewError (''Failed to start dummy network container ''
                          @ take 12 (ID container) @ '', error: '' @ Error err))
              | None \<Rightarrow>
                  (case InspectContainer cl (ID container) of
                     Inl err \<Rightarrow>
                       Some (NewError (''Failed to inspect dummy network container ''
                               @ take 12 (ID container) @ '', error: '' @ Error err))
                   | Inr inspect \<Rightarrow>
                       RemoveContainer cl \<lparr>remove_ID = ID container, remove_Force = True,
                                            remove_RemoveVolumes = True\<rparr>))"
proof -
  let ?rm = "CallRemoveContainer \<lparr>remove_ID = ID container, remove_Force = True,
                                  remove_RemoveVolumes = True\<rparr> :: 'i call"
  let ?pull = "PullDockerImage ops cl hub (NewFromString ops emptyImageName)
                 \<lparr>Username = [], Password = [], Email = [], ServerAddress = []\<rparr> False"
  let ?cont = "GetBridgeIp_container cl :: 'i bridge_run"
  have "\<exists>pre. snd (GetBridgeIp ops cl hub) = pre @ snd ?cont \<and>
          fst (GetBridgeIp ops cl hub) = fst ?cont \<and>
          CallCreateContainer opts \<in> set (snd ?cont) \<and>
          (\<forall>ropts. CallRemoveContainer ropts \<notin> set pre)"
  proof (cases "InspectImage cl emptyImageName")
    case None
    with created have
      "snd (GetBridgeIp ops cl hub) = [CallInspectImage emptyImageName] @ snd ?cont \<and>
       fst (GetBridgeIp ops cl hub) = fst ?cont \<and>
       CallCreateContainer opts \<in> set (snd ?cont) \<and>
       (\<forall>ropts. CallRemoveContainer ropts \<notin> set [CallInspectImage emptyImageName :: 'i call])"
      by (simp add: GetBridgeIp_def case_prod_beta)
    then show ?thesis by blast
  next
    case (Some err)
    show ?thesis
    proof (cases "Error err = ''no such image''")
      case False
      with Some created show ?thesis by (simp add: GetBridgeIp_def)
    next
      case True
      obtain res calls where pl: "?pull = (res, calls)" by (metis surj_pair)
      with PullDockerImage_no_container_calls [of _ ops cl hub "NewFromString ops emptyImageName"
          "\<lparr>Username = [], Password = [], Email = [], ServerAddress = []\<rparr>" False]
      have nc: "\<forall>x. CallCreateContainer x \<notin> set calls" "\<forall>x. CallRemoveContainer x \<notin> set calls"
        by simp_all
      show ?thesis
      proof (cases res)
        case (Inl e)
        with Some True pl created nc show ?thesis by (simp add: GetBridgeIp_def)
      next
        case (Inr x)
        with Some True pl created nc have
          "snd (GetBridgeIp ops cl hub)
             = (CallInspectImage emptyImageName # calls) @ snd ?cont \<and>
           fst (GetBridgeIp ops cl hub) = fst ?cont \<and>
           CallCreateContainer opts \<in> set (snd ?cont) \<and>
           (\<forall>ropts. CallRemoveContainer ropts \<notin> set (CallInspectImage emptyImageName # calls))"
          by (simp add: GetBridgeIp_def case_prod_beta)
        then show ?thesis by blast
      qed
    qed
  qed
  then obtain pre where
    pre: "snd (GetBridgeIp ops cl hub) = pre @ snd ?cont"
         "fst (GetBridgeIp ops cl hub) = fst ?cont"
         "CallCreateContainer opts \<in> set (snd ?cont)"
         "\<forall>ropts. CallRemoveContainer ropts \<notin> set pre"
    by blast
  from GetBridgeIp_container_created [OF pre(3) container] obtain calls where
    c: "snd ?cont = CallCreateContainer opts # calls @ [?rm]"
       "\<forall>ropts. CallRemoveContainer ropts \<notin> set calls"
       "snd (fst ?cont) =
             (case snd (fst (GetBridgeIp_probe cl container :: 'i bridge_run)) of
                Some e \<Rightarrow> Some e
              | None \<Rightarrow> RemoveContainer cl \<lparr>remove_ID = ID container, remove_Force = True,
                                             remove_RemoveVolumes = True\<rparr>)"
    by blast
  have 1: "snd (GetBridgeIp ops cl hub) = (pre @ CallCreateContainer opts # calls) @ [?rm]"
    using pre(1) c(1) by simp
  have 2: "\<forall>ropts. CallRemoveContainer ropts \<notin> set (pre @ CallCreateContainer opts # calls)"
    using pre(4) c(2) by simp
  have 3: "snd (fst (GetBridgeIp ops cl hub)) =
             (case StartContainer cl (ID container) of
                Some err \<Rightarrow>
                  Some (NewError (''Failed to start dummy network container ''
                          @ take 12 (ID container) @ '', error: '' @ Error err))
              | None \<Rightarrow>
                  (case InspectContainer cl (ID container) of
                     Inl err \<Rightarrow>
                       Some (NewError (''Failed to inspect dummy network container ''
                               @ take 12 (ID container) @ '', error: '' @ Error err))
                   | Inr inspect \<Rightarrow>
                       RemoveContainer cl \<lparr>remove_ID = ID container, remove_Force = True,
                                            remove_RemoveVolumes = True\<rparr>))"
    unfolding pre(2) c(3) GetBridgeIp_probe_error
    by (simp split: option.split sum.split)
  from 1 2 3 show ?thesis by blast
qed

theorem GetBridgeIp_removes_container_witness:
  "(\<exists>calls.
      snd (GetBridgeIp sample_imagename
             (sample_client\<lparr>StartContainer := (\<lambda>id. Some (NewError ''start failed'')),
                             RemoveContainer := (\<lambda>opts. Some (NewError ''remove failed''))\<rparr>)
             sample_services)
        = calls @ [CallRemoveContainer \<lparr>remove_ID = ''0123456789abcdef'', remove_Force = True,
                                         remove_RemoveVolumes = True\<rparr>] \<and>
      (\<forall>ropts. CallRemoveContainer ropts \<notin> set calls) \<and>
      snd (fst (GetBridgeIp sample_imagename
             (sample_client\<lparr>StartContainer := (\<lambda>id. Some (NewError ''start failed'')),
                             RemoveContainer := (\<lambda>opts. Some (NewError ''remove failed''))\<rparr>)
             sample_services))
        = Some (NewError ''Failed to start dummy network container 0123456789ab, error: start failed''))"
proof -
  let ?cl = "sample_client\<lparr>StartContainer := (\<lambda>id. Some (NewError ''start failed'')),
                           RemoveContainer := (\<lambda>opts. Some (NewError ''remove failed''))\<rparr>"
  let ?opts = "\<lparr>create_Image = emptyImageName,
                create_Cmd = [''/bin/sh'', ''-c'', ''while true; do sleep 1; done'']\<rparr>"
  let ?c = "\<lparr>ID = ''0123456789abcdef'', Gateway = []\<rparr>"
  have 1: "CallCreateContainer ?opts \<in> set (snd (GetBridgeIp sample_imagename ?cl sample_services))"
    by code_simp
  have 2: "CreateContainer ?cl ?opts = Inr ?c"
    by (simp add: sample_client_def)
  have 3: "StartContainer ?cl (ID ?c) = Some (NewError ''start failed'')"
    by simp
  have 4: "ID ?c = ''0123456789abcdef''"
    by simp
  from GetBridgeIp_removes_container [OF 1 2, unfolded 3 4]
  show ?thesis by simp
qed

end
